theory Spec2Isabelle
  imports Main "HOL-Library.Char_ord" "HOL-Library.List_Lexorder" "HOL-Library.Sublist"
begin

section \<open>chrome_update_manifest: strings, constants and errors\<close>

text \<open>
  The script is Python 2: a \<open>str\<close> is a byte string, modelled as \<^typ>\<open>string\<close>
  (a list of 8-bit characters). Strings are compared byte by byte in lexicographic order,
  which is the order that \<open>Char_ord\<close> and \<open>List_Lexorder\<close> put on \<^typ>\<open>string\<close>.
\<close>

definition newline :: char where
  "newline = CHR 0x0A"

text \<open>The characters that \<open>str.strip()\<close>, \<open>\s\<close> and \<open>\S\<close> of Python 2 treat as whitespace
  on a byte string: space, tab, line feed, carriage return, vertical tab, form feed.\<close>

definition is_space :: "char \<Rightarrow> bool" where
  "is_space c = (c \<in> set [CHR 0x20, CHR 0x09, CHR 0x0A, CHR 0x0D, CHR 0x0B, CHR 0x0C])"

text \<open>\<open>str.strip()\<close>: whitespace removed at both ends.\<close>

definition strip :: "string \<Rightarrow> string" where
  "strip s = rev (dropWhile is_space (rev (dropWhile is_space s)))"

text \<open>\<open>str.startswith\<close>.\<close>

definition startswith :: "string \<Rightarrow> string \<Rightarrow> bool" where
  "startswith s p = (take (length p) s = p)"

text \<open>\<open>os.path.join\<close> of \<open>posixpath\<close>, for two components and for three.\<close>

definition path_join :: "string \<Rightarrow> string \<Rightarrow> string" where
  "path_join a b =
     (if startswith b ''/'' then b
      else if a = [] \<or> last a = CHR ''/'' then a @ b
      else a @ ''/'' @ b)"

definition path_join3 :: "string \<Rightarrow> string \<Rightarrow> string \<Rightarrow> string" where
  "path_join3 a b c = path_join (path_join a b) c"

definition CHROMIUM_ROOT :: string where
  "CHROMIUM_ROOT = ''chromium''"

definition CHROMIUM_SRC_ROOT :: string where
  "CHROMIUM_SRC_ROOT = path_join CHROMIUM_ROOT ''src''"

definition CHROMIUM_SRC_INTERNAL :: string where
  "CHROMIUM_SRC_INTERNAL = path_join CHROMIUM_ROOT ''src-internal''"

definition BEGIN_MARKER :: string where
  "BEGIN_MARKER =
     ''<!-- @@@@ BEGIN AUTOGENERATED BROWSER PROJECTS - DON'T MODIFY! @@@@ -->\<newline>\<newline>''"

definition END_MARKER :: string where
  "END_MARKER =
     ''<!-- @@@@ END AUTOGENERATED BROWSER PROJECTS - DON'T MODIFY! @@@@ -->\<newline>\<newline>''"

definition EXTERNAL_HEADER :: string where
  "EXTERNAL_HEADER =
     ''  <!-- Begin Chromium (browser) projects -->\<newline>'' @
     ''  <!-- Hardcoded revision=\"refs/heads/master\" is intentional here -->\<newline>\<newline>''"

definition CROS_HEADER :: string where
  "CROS_HEADER =
     ''  <!-- Begin CrOS-specific Chromium (browser) projects -->\<newline>'' @
     ''  <!-- Hardcoded revision=\"refs/heads/master\" is intentional here -->\<newline>\<newline>''"

definition INTERNAL_HEADER :: string where
  "INTERNAL_HEADER =
     ''  <!-- Begin Chrome browser (PRIVATE) projects -->\<newline>'' @
     ''  <!-- Hardcoded revision=\"refs/heads/master\" is intentional here -->\<newline>\<newline>''"

text \<open>
  The two project templates are only ever used as \<open>template % {'path': p, 'name': n}\<close>.
  A template is modelled as the function that this substitution computes: the text of the
  constant with \<open>%(path)s\<close> and \<open>%(name)s\<close> replaced.
\<close>

type_synonym template = "string \<Rightarrow> string \<Rightarrow> string"

definition EXTERNAL_PROJECT :: template where
  "EXTERNAL_PROJECT path name =
     ''  <project path=\"'' @ path @ ''\"\<newline>'' @
     ''           name=\"'' @ name @ ''\"\<newline>'' @
     ''           revision=\"refs/heads/master\" />\<newline>''"

definition INTERNAL_PROJECT :: template where
  "INTERNAL_PROJECT path name =
     ''  <project remote=\"cros-internal\"\<newline>'' @
     ''           path=\"'' @ path @ ''\"\<newline>'' @
     ''           name=\"'' @ name @ ''\"\<newline>'' @
     ''           revision=\"refs/heads/master\" />\<newline>''"

text \<open>\<open>_TEST_MANIFEST_TEMPLATE % {'content': c}\<close>.\<close>

definition TEST_MANIFEST_TEMPLATE :: "string \<Rightarrow> string" where
  "TEST_MANIFEST_TEMPLATE content =
     ''<?xml version=\"1.0\" encoding=\"UTF-8\"?>\<newline>'' @
     ''<manifest>\<newline>'' @ content @ ''\<newline>'' @
     ''</manifest>''"

text \<open>
  Exceptions are values. \<open>ManifestException\<close> is the script's own class; \<open>AttributeError\<close>
  is what \<open>None.group\<close> raises; \<open>IOError\<close> and \<open>OSError\<close> come from opening or
  stat-ing a file that is absent; \<open>ExternalError\<close> stands for whatever a collaborator
  outside this file (the manifest parser, the dependency reader, repo, git) raises.
\<close>

datatype error =
    ManifestException string
  | AttributeError
  | IOError
  | OSError
  | ExternalError string

section \<open>The two regular expressions\<close>

text \<open>
  \<open>re.match\<close> is a backtracking matcher. Each piece of a pattern is a function that takes
  the matcher \<open>k\<close> for the rest of the pattern, the character just before the current
  position (\<open>None\<close> at the start of the subject) and the rest of the subject, and returns
  what was captured, or \<open>None\<close> when there is no match.

  \<open>star P k\<close> is a greedy \<open>x*\<close>, for the characters \<open>x\<close> that satisfy \<open>P\<close>: it first consumes
  one more character and goes on; only when that fails does it hand over to \<open>k\<close> at the
  current position. It returns the text it consumed together with the result of \<open>k\<close>.
\<close>

type_synonym 'a matcher = "char option \<Rightarrow> string \<Rightarrow> 'a option"

definition here :: "'a matcher \<Rightarrow> (string \<times> 'a) matcher" where
  "here k prev s = (case k prev s of None \<Rightarrow> None | Some r \<Rightarrow> Some ([], r))"

fun star :: "(char \<Rightarrow> bool) \<Rightarrow> 'a matcher \<Rightarrow> (string \<times> 'a) matcher" where
  "star P k prev [] = here k prev []"
| "star P k prev (c # cs) =
     (case (if P c then star P k (Some c) cs else None) of
        Some (g, r) \<Rightarrow> Some (c # g, r)
      | None \<Rightarrow> here k prev (c # cs))"

text \<open>\<open>x+\<close>: one character, then \<open>x*\<close>.\<close>

fun plus_re :: "(char \<Rightarrow> bool) \<Rightarrow> 'a matcher \<Rightarrow> (string \<times> 'a) matcher" where
  "plus_re P k prev [] = None"
| "plus_re P k prev (c # cs) =
     (case (if P c then star P k (Some c) cs else None) of
        Some (g, r) \<Rightarrow> Some (c # g, r)
      | None \<Rightarrow> None)"

text \<open>An escaped literal (\<open>re.escape\<close> makes every character of the marker match itself).\<close>

fun literal :: "string \<Rightarrow> 'a matcher \<Rightarrow> 'a matcher" where
  "literal [] k prev s = k prev s"
| "literal (p # ps) k prev [] = None"
| "literal (p # ps) k prev (c # cs) = (if p = c then literal ps k (Some c) cs else None)"

text \<open>\<open>^\<close> under \<open>re.MULTILINE\<close>: the start of the subject, or just after a line feed.\<close>

definition bol :: "'a matcher \<Rightarrow> 'a matcher" where
  "bol k prev s = (if prev = None \<or> prev = Some newline then k prev s else None)"

text \<open>The end of the pattern: \<open>re.match\<close> does not anchor at the end of the subject.\<close>

definition accept :: "unit matcher" where
  "accept prev s = Some ()"

text \<open>\<open>.\<close> under \<open>re.DOTALL\<close> is any character; \<open>\s\<close> and \<open>\S\<close>.\<close>

definition any_char :: "char \<Rightarrow> bool" where
  "any_char c = True"

definition non_space :: "char \<Rightarrow> bool" where
  "non_space c = (\<not> is_space c)"

text \<open>
  \<open>re.match(r'(.*)(B)(.*)(E)(.*)', lines, re.DOTALL)\<close> with groups 1, 3 and 5, for the
  literals \<open>b\<close> and \<open>e\<close>.
\<close>

definition match_markers :: "string \<Rightarrow> string \<Rightarrow> string \<Rightarrow> (string \<times> string \<times> string) option" where
  "match_markers b e s =
     (case star any_char (literal b (star any_char (literal e (star any_char accept)))) None s of
        None \<Rightarrow> None
      | Some (group1, group3, group5, _) \<Rightarrow> Some (group1, group3, group5))"

text \<open>
  \<open>re.match(r'\s*(^\s*\S+.*)', bottom_part, re.S | re.M)\<close>, then \<open>.group(1)\<close>: \<open>None\<close>
  when there is no match object. Group 1 spans the last three pieces.
\<close>

definition match_bottom :: "string \<Rightarrow> string option" where
  "match_bottom s =
     (case star is_space (bol (star is_space (plus_re non_space (star any_char accept)))) None s of
        None \<Rightarrow> None
      | Some (spaces0, spaces1, word, rest, _) \<Rightarrow> Some (spaces1 @ word @ rest))"

section \<open>Collaborators outside this file\<close>

text \<open>
  What the manifest parser returns: \<open>handler.projects\<close>, a dictionary from project name
  to the attributes of its element. It is kept as the list of its items in iteration order
  (the order decides which project an error message names); the attributes are a list of
  name and value pairs read with \<open>attributes.get\<close>.
\<close>

type_synonym attributes = "(string \<times> string) list"

type_synonym projects = "(string \<times> attributes) list"

definition attr_get :: "attributes \<Rightarrow> string \<Rightarrow> string \<Rightarrow> string" where
  "attr_get attributes key dflt = (case map_of attributes key of None \<Rightarrow> dflt | Some v \<Rightarrow> v)"

type_synonym files = "string \<rightharpoonup> string"

datatype local_manifest = LocalManifest string | DEFAULT_MANIFEST

text \<open>
  The parser (\<open>cros_build_lib.ManifestHandler\<close>), the dependency reader
  (\<open>chrome_set_ver\<close>), \<open>manifest_version\<close>, \<open>repository\<close> and \<open>constants\<close> are imported
  modules. Their behaviour is a parameter of the model: \<open>ParseManifest\<close> maps a document to
  \<open>handler.projects\<close> or raises; \<open>GetPathToProjectMappings\<close> maps the path of a dependency
  file to the items of the path-to-project dictionary, in the dictionary's iteration order,
  or raises; \<open>PrepForChanges\<close> cleans the git checkout of the manifest and may change
  files; \<open>Sync\<close>, \<open>RunCommand\<close>, \<open>GitPushWithRetry\<close> and \<open>os.makedirs\<close> succeed or raise.
  The system, too, is a parameter where the model does not determine it: \<open>st_mtime\<close> is the
  modification time that \<open>os.stat\<close> reports for a regular file, given the path and the
  contents of the files at the time of the call, and \<open>stat_other\<close> is what \<open>os.stat\<close> reports
  for a path that holds no regular file (\<open>None\<close> when it raises \<open>OSError\<close>).
\<close>

datatype file_type = S_IFREG | S_IFDIR | S_IFCHR | S_IFBLK | S_IFIFO | S_IFSOCK

type_synonym file_sig = "file_type \<times> nat \<times> int"

record env =
  ParseManifest :: "string \<Rightarrow> error + projects"
  GetPathToProjectMappings :: "string \<Rightarrow> error + (string \<times> string) list"
  PrepForChanges :: "string \<Rightarrow> files \<Rightarrow> error + files"
  Sync :: "string \<Rightarrow> string \<Rightarrow> local_manifest \<Rightarrow> files \<Rightarrow> error option"
  RunCommand :: "string list \<Rightarrow> string \<Rightarrow> files \<Rightarrow> error option"
  GitPushWithRetry :: "string \<Rightarrow> string \<Rightarrow> bool \<Rightarrow> files \<Rightarrow> error option"
  makedirs :: "string \<Rightarrow> files \<Rightarrow> error option"
  st_mtime :: "string \<Rightarrow> files \<Rightarrow> int"
  stat_other :: "string \<Rightarrow> file_sig option"
  MANIFEST_URL :: string
  MANIFEST_INT_URL :: string
  PUSH_BRANCH :: string

section \<open>The world: files, the operator's log and the calls made\<close>

datatype warning =
    Skipping string string
  | DoubleCheckout string string

text \<open>The text that \<open>cros_lib.Warning\<close> receives.\<close>

fun warning_text :: "warning \<Rightarrow> string" where
  "warning_text (Skipping project deps_file) =
     ''Skipping project '' @ project @ '' in '' @ deps_file"
| "warning_text (DoubleCheckout project rel_path) =
     ''Found double checkout of '' @ project @ '' to '' @ rel_path"

datatype event =
    Warning warning
  | Error string
  | CallPrepForChanges string
  | CallMakedirs string
  | CallSync string string local_manifest
  | CallRunCommand "string list" string
  | CallGitPushWithRetry string string bool

text \<open>
  \<open>cmp_cache\<close> is the dictionary \<open>filecmp._cache\<close>, which lives as long as the process:
  its items, the first item of a key being the one that counts.
\<close>

record world =
  files :: files
  trace :: "event list"
  cmp_cache :: "((string \<times> string \<times> file_sig \<times> file_sig) \<times> bool) list"

definition log_event :: "event \<Rightarrow> world \<Rightarrow> world" where
  "log_event ev w = w\<lparr>trace := trace w @ [ev]\<rparr>"

text \<open>\<open>open(path, 'w')\<close> creates or truncates; \<open>f.write\<close> appends.\<close>

definition open_w :: "string \<Rightarrow> world \<Rightarrow> world" where
  "open_w path w = w\<lparr>files := (files w)(path \<mapsto> [])\<rparr>"

definition file_write :: "string \<Rightarrow> string \<Rightarrow> world \<Rightarrow> world" where
  "file_write path str w =
     w\<lparr>files := (files w)(path \<mapsto> (case files w path of None \<Rightarrow> str | Some c \<Rightarrow> c @ str))\<rparr>"

text \<open>
  A statement that may raise returns the exception, if any, and the world it leaves.
  \<open>and_then\<close> is the semicolon: what follows runs only when nothing was raised.
\<close>

type_synonym outcome = "error option \<times> world"

definition and_then :: "outcome \<Rightarrow> (world \<Rightarrow> outcome) \<Rightarrow> outcome" where
  "and_then r f = (case r of (Some e, w) \<Rightarrow> (Some e, w) | (None, w) \<Rightarrow> f w)"

definition done_ok :: "world \<Rightarrow> outcome" where
  "done_ok w = (None, w)"

section \<open>ConvertDepsToManifest\<close>

text \<open>
  The loop state: \<open>written\<close> holds, in order, the \<open>{'path': ..., 'name': ...}\<close> dictionaries
  that were substituted into the template and written; \<open>previous_projects\<close> is the set of
  the source; \<open>warnings\<close> are the calls of \<open>cros_lib.Warning\<close>.
\<close>

record converter =
  written :: "(string \<times> string) list"
  previous_projects :: "string set"
  warnings :: "warning list"

text \<open>\<open>blacklist and project in blacklist\<close>: \<open>None\<close> and the empty list are false.\<close>

definition blacklisted :: "string list option \<Rightarrow> string \<Rightarrow> bool" where
  "blacklisted blacklist project =
     (case blacklist of None \<Rightarrow> False | Some bl \<Rightarrow> bl \<noteq> [] \<and> project \<in> set bl)"

definition convert_entry ::
  "string \<Rightarrow> string list option \<Rightarrow> string \<times> string \<Rightarrow> converter \<Rightarrow> converter" where
  "convert_entry deps_file blacklist mapping st =
     (let rel_path = path_join ''chromium'' (fst mapping);
          project = snd mapping
      in if blacklisted blacklist project
         then st\<lparr>warnings := warnings st @ [Skipping project deps_file]\<rparr>
         else if project \<in> previous_projects st
         then st\<lparr>warnings := warnings st @ [DoubleCheckout project rel_path]\<rparr>
         else st\<lparr>written := written st @ [(rel_path, project)],
                 previous_projects := insert project (previous_projects st)\<rparr>)"

fun convert_loop ::
  "string \<Rightarrow> string list option \<Rightarrow> (string \<times> string) list \<Rightarrow> converter \<Rightarrow> converter" where
  "convert_loop deps_file blacklist [] st = st"
| "convert_loop deps_file blacklist (mapping # rest) st =
     convert_loop deps_file blacklist rest (convert_entry deps_file blacklist mapping st)"

text \<open>
  \<open>sorted(mappings.items(), key=lambda mapping: mapping[1])\<close> is a stable sort by project
  id, as \<^const>\<open>sort_key\<close> is: items with the same project id keep the dictionary's
  iteration order.
\<close>

definition convert :: "string \<Rightarrow> string list option \<Rightarrow> (string \<times> string) list \<Rightarrow> converter" where
  "convert deps_file blacklist mappings =
     convert_loop deps_file blacklist (sort_key snd mappings)
       \<lparr>written = [], previous_projects = {}, warnings = []\<rparr>"

text \<open>
  The loop only appends to the file and to the log, so the model lets it run on its own
  state and then appends what it wrote, entry by entry in the order of the loop, and what
  it logged.
\<close>

definition render :: "template \<Rightarrow> (string \<times> string) list \<Rightarrow> string" where
  "render template entries = concat (map (\<lambda>(path, name). template path name) entries)"

definition ConvertDepsToManifest ::
  "env \<Rightarrow> string \<Rightarrow> string \<Rightarrow> template \<Rightarrow> string list option \<Rightarrow> world \<Rightarrow> outcome" where
  "ConvertDepsToManifest env deps_file manifest_file template blacklist w =
     (case GetPathToProjectMappings env deps_file of
        Inl e \<Rightarrow> (Some e, w)
      | Inr mappings \<Rightarrow>
          (let st = convert deps_file blacklist mappings;
               w' = file_write manifest_file (render template (written st)) w
           in (None, w'\<lparr>trace := trace w' @ map Warning (warnings st)\<rparr>)))"

section \<open>The safety check\<close>

definition ParseManifestString :: "env \<Rightarrow> string \<Rightarrow> error + projects" where
  "ParseManifestString env manifest_xml = ParseManifest env manifest_xml"

fun check_projects :: "projects \<Rightarrow> error option" where
  "check_projects [] = None"
| "check_projects ((project, attributes) # rest) =
     (if \<not> startswith (attr_get attributes ''path'' []) ''chromium/''
      then Some (ManifestException
                   (''Project '' @ project @ '' was about to be accidentally removed!''))
      else check_projects rest)"

definition CheckForNonChromeProjects :: "env \<Rightarrow> string \<Rightarrow> error option" where
  "CheckForNonChromeProjects env manifest_xml =
     (case ParseManifestString env manifest_xml of
        Inl e \<Rightarrow> Some e
      | Inr handler_projects \<Rightarrow> check_projects handler_projects)"

definition GetListOfProjects :: "env \<Rightarrow> string \<Rightarrow> error + string list" where
  "GetListOfProjects env manifest_xml =
     (case ParseManifestString env manifest_xml of
        Inl e \<Rightarrow> Inl e
      | Inr handler_projects \<Rightarrow> Inr (map fst handler_projects))"

section \<open>The Manifest class\<close>

text \<open>\<open>os.path.dirname\<close> of \<open>posixpath\<close>.\<close>

definition dirname :: "string \<Rightarrow> string" where
  "dirname p =
     (let i = length p - length (takeWhile (\<lambda>c. c \<noteq> CHR ''/'') (rev p));
          head = take i p
      in if head \<noteq> [] \<and> head \<noteq> replicate (length head) (CHR ''/'')
         then rev (dropWhile (\<lambda>c. c = CHR ''/'') (rev head))
         else head)"

record manifest =
  repo_root :: string
  testroot :: string
  manifest_path :: string
  manifest_dir :: string
  new_manifest_path :: string
  internal :: bool
  dryrun :: bool

text \<open>\<open>Manifest.__init__\<close>.\<close>

definition Manifest :: "string \<Rightarrow> string \<Rightarrow> string \<Rightarrow> bool \<Rightarrow> bool \<Rightarrow> manifest" where
  "Manifest repo_root_arg manifest_path_arg testroot_arg internal_arg dryrun_arg =
     \<lparr>repo_root = repo_root_arg,
      testroot = testroot_arg,
      manifest_path = manifest_path_arg,
      manifest_dir = dirname manifest_path_arg,
      new_manifest_path = path_join (dirname manifest_path_arg) ''new_update_manifest.xml'',
      internal = internal_arg,
      dryrun = dryrun_arg\<rparr>"

text \<open>
  \<open>_PartitionManifest\<close>: the pattern is built from the markers without their trailing
  line feeds (\<open>_BEGIN_MARKER.strip()\<close>, \<open>_END_MARKER.strip()\<close>).
\<close>

definition partition_lines :: "string \<Rightarrow> error + string \<times> string \<times> string" where
  "partition_lines lines =
     (case match_markers (strip BEGIN_MARKER) (strip END_MARKER) lines of
        Some result \<Rightarrow> Inr result
      | None \<Rightarrow> Inl (ManifestException ''Chromium projects begin/end markers not found!''))"

definition PartitionManifest :: "manifest \<Rightarrow> world \<Rightarrow> error + string \<times> string \<times> string" where
  "PartitionManifest m w =
     (case files w (manifest_path m) of
        None \<Rightarrow> Inl IOError
      | Some lines \<Rightarrow> partition_lines lines)"

text \<open>
  \<open>CreateNewManifest\<close>, cut at the blank lines of the source. Each section appends to the
  staged file, which the \<open>with\<close> statement has opened for writing; an exception leaves
  what was written so far.
\<close>

definition write_external_section :: "env \<Rightarrow> manifest \<Rightarrow> string \<Rightarrow> world \<Rightarrow> outcome" where
  "write_external_section env m top_part w =
     (let new_manifest = new_manifest_path m;
          w1 = file_write new_manifest top_part w;
          w2 = file_write new_manifest (BEGIN_MARKER @ EXTERNAL_HEADER) w1;
          w3 = file_write new_manifest (EXTERNAL_PROJECT ''chromium/src'' ''chromium/src'') w2;
          src_root = path_join (repo_root m) CHROMIUM_SRC_ROOT
      in and_then
           (ConvertDepsToManifest env (path_join src_root ''.DEPS.git'') new_manifest
              EXTERNAL_PROJECT None w3)
           (\<lambda>w4. done_ok (file_write new_manifest ''\<newline>'' w4)))"

definition write_cros_section ::
  "env \<Rightarrow> manifest \<Rightarrow> string \<Rightarrow> string \<Rightarrow> world \<Rightarrow> outcome" where
  "write_cros_section env m top_part bottom_part w =
     (let new_manifest = new_manifest_path m;
          w1 = file_write new_manifest CROS_HEADER w;
          src_root = path_join (repo_root m) CHROMIUM_SRC_ROOT
      in case GetListOfProjects env (top_part @ bottom_part) of
           Inl e \<Rightarrow> (Some e, w1)
         | Inr blacklist \<Rightarrow>
             and_then
               (ConvertDepsToManifest env (path_join src_root ''tools/cros.DEPS/DEPS'')
                  new_manifest EXTERNAL_PROJECT (Some blacklist) w1)
               (\<lambda>w2. done_ok (file_write new_manifest ''\<newline>'' w2)))"

definition write_internal_section :: "env \<Rightarrow> manifest \<Rightarrow> world \<Rightarrow> outcome" where
  "write_internal_section env m w =
     (if internal m
      then (let new_manifest = new_manifest_path m;
                w1 = file_write new_manifest INTERNAL_HEADER w;
                w2 = file_write new_manifest
                       (INTERNAL_PROJECT ''chromium/src-internal'' ''chrome/src-internal'') w1;
                internal_deps = path_join3 (repo_root m) CHROMIUM_SRC_INTERNAL ''.DEPS.git''
            in and_then
                 (ConvertDepsToManifest env internal_deps new_manifest INTERNAL_PROJECT None w2)
                 (\<lambda>w3. done_ok (file_write new_manifest ''\<newline>'' w3)))
      else done_ok w)"

definition write_end_section :: "manifest \<Rightarrow> string \<Rightarrow> world \<Rightarrow> outcome" where
  "write_end_section m bottom_part w =
     (let new_manifest = new_manifest_path m;
          w1 = file_write new_manifest END_MARKER w
      in case match_bottom bottom_part of
           None \<Rightarrow> (Some AttributeError, w1)
         | Some group1 \<Rightarrow> done_ok (file_write new_manifest group1 w1))"

definition write_new_manifest ::
  "env \<Rightarrow> manifest \<Rightarrow> string \<Rightarrow> string \<Rightarrow> world \<Rightarrow> outcome" where
  "write_new_manifest env m top_part bottom_part w =
     and_then
       (and_then
          (and_then
             (write_external_section env m top_part (open_w (new_manifest_path m) w))
             (write_cros_section env m top_part bottom_part))
          (write_internal_section env m))
       (write_end_section m bottom_part)"

definition CreateNewManifest :: "env \<Rightarrow> manifest \<Rightarrow> world \<Rightarrow> outcome" where
  "CreateNewManifest env m w0 =
     (let w1 = log_event (CallPrepForChanges (manifest_dir m)) w0
      in case PrepForChanges env (manifest_dir m) (files w1) of
           Inl e \<Rightarrow> (Some e, w1)
         | Inr prepared \<Rightarrow>
             (let w = w1\<lparr>files := prepared\<rparr>
              in case PartitionManifest m w of
                   Inl e \<Rightarrow> (Some e, w)
                 | Inr (top_part, overwritten, bottom_part) \<Rightarrow>
                     (case CheckForNonChromeProjects env (TEST_MANIFEST_TEMPLATE overwritten) of
                        Some e \<Rightarrow> (Some e, w)
                      | None \<Rightarrow> write_new_manifest env m top_part bottom_part w)))"

text \<open>
  \<open>os.stat\<close> and the signature \<open>filecmp._sig\<close> takes from it: the type of the file, its size
  and its modification time. A file of \<^const>\<open>files\<close> is a regular file of the size of its
  contents; its modification time, and what stands at a path that holds no regular file (a
  directory, a device, or nothing: \<open>OSError\<close>), are known to the system only.
\<close>

definition os_stat :: "env \<Rightarrow> world \<Rightarrow> string \<Rightarrow> file_sig option" where
  "os_stat env w path =
     (case files w path of
        Some c \<Rightarrow> Some (S_IFREG, length c, st_mtime env path (files w))
      | None \<Rightarrow> stat_other env path)"

text \<open>\<open>os.path.isdir\<close>: false when \<open>os.stat\<close> raises.\<close>

definition isdir :: "env \<Rightarrow> world \<Rightarrow> string \<Rightarrow> bool" where
  "isdir env w path =
     (case os_stat env w path of None \<Rightarrow> False | Some (kind, sz, mtime) \<Rightarrow> kind = S_IFDIR)"

text \<open>\<open>filecmp._do_cmp\<close> reads both files and compares what it read.\<close>

definition do_cmp :: "world \<Rightarrow> string \<Rightarrow> string \<Rightarrow> error + bool" where
  "do_cmp w f1 f2 =
     (case files w f1 of
        None \<Rightarrow> Inl IOError
      | Some c1 \<Rightarrow> (case files w f2 of None \<Rightarrow> Inl IOError | Some c2 \<Rightarrow> Inr (c1 = c2)))"

text \<open>\<open>len(_cache)\<close>: the number of keys of the dictionary.\<close>

definition dict_len :: "('k \<times> 'v) list \<Rightarrow> nat" where
  "dict_len d = length (remdups (map fst d))"

text \<open>
  \<open>filecmp.cmp(f1, f2, shallow=False)\<close>: false for anything but two regular files and for
  two sizes that differ; otherwise the outcome the cache holds for the two paths under
  their present signatures, if it holds one; otherwise the outcome of reading both files,
  which is put into the cache (emptied first when it has more than 100 entries).
\<close>

definition filecmp_cmp :: "env \<Rightarrow> string \<Rightarrow> string \<Rightarrow> world \<Rightarrow> (error + bool) \<times> world" where
  "filecmp_cmp env f1 f2 w =
     (case os_stat env w f1 of
        None \<Rightarrow> (Inl OSError, w)
      | Some s1 \<Rightarrow>
          (case os_stat env w f2 of
             None \<Rightarrow> (Inl OSError, w)
           | Some s2 \<Rightarrow>
               (if fst s1 \<noteq> S_IFREG \<or> fst s2 \<noteq> S_IFREG then (Inr False, w)
                else if fst (snd s1) \<noteq> fst (snd s2) then (Inr False, w)
                else (case map_of (cmp_cache w) (f1, f2, s1, s2) of
                        Some outcome \<Rightarrow> (Inr outcome, w)
                      | None \<Rightarrow>
                          (case do_cmp w f1 f2 of
                             Inl e \<Rightarrow> (Inl e, w)
                           | Inr outcome \<Rightarrow>
                               (Inr outcome,
                                w\<lparr>cmp_cache :=
                                    ((f1, f2, s1, s2), outcome) #
                                    (if 100 < dict_len (cmp_cache w) then []
                                     else cmp_cache w)\<rparr>))))))"

text \<open>\<open>IsNewManifestDifferent\<close>: \<open>not filecmp.cmp(new, old, shallow=False)\<close>.\<close>

definition IsNewManifestDifferent :: "env \<Rightarrow> manifest \<Rightarrow> world \<Rightarrow> (error + bool) \<times> world" where
  "IsNewManifestDifferent env m w =
     (case filecmp_cmp env (new_manifest_path m) (manifest_path m) w of
        (Inl e, w') \<Rightarrow> (Inl e, w')
      | (Inr same, w') \<Rightarrow> (Inr (\<not> same), w'))"

text \<open>
  \<open>TestNewManifest\<close>: \<open>os.makedirs\<close> may raise; the \<open>except\<close> clause logs and re-raises,
  the \<open>finally\<close> clause syncs back in every case, and an exception of the \<open>finally\<close> clause
  replaces the pending one.
\<close>

definition make_test_dir :: "env \<Rightarrow> string \<Rightarrow> world \<Rightarrow> outcome" where
  "make_test_dir env test_dir w =
     (if \<not> isdir env w test_dir
      then (makedirs env test_dir (files w), log_event (CallMakedirs test_dir) w)
      else done_ok w)"

definition sync_new_manifest :: "env \<Rightarrow> manifest \<Rightarrow> string \<Rightarrow> world \<Rightarrow> outcome" where
  "sync_new_manifest env m test_dir w1 =
     (let git_url = (if internal m then MANIFEST_INT_URL env else MANIFEST_URL env);
          new_manifest = LocalManifest (new_manifest_path m);
          w2 = log_event (CallSync git_url test_dir new_manifest) w1;
          raised = Sync env git_url test_dir new_manifest (files w2);
          w3 = (case raised of
                  None \<Rightarrow> w2
                | Some e \<Rightarrow> log_event (Error ''Failed to sync with new manifest!'') w2);
          w4 = log_event (CallSync git_url test_dir DEFAULT_MANIFEST) w3
      in case Sync env git_url test_dir DEFAULT_MANIFEST (files w4) of
           Some e \<Rightarrow> (Some e, w4)
         | None \<Rightarrow> (raised, w4))"

definition TestNewManifest :: "env \<Rightarrow> manifest \<Rightarrow> world \<Rightarrow> outcome" where
  "TestNewManifest env m w =
     (let test_dir = path_join (testroot m) (if internal m then ''internal'' else ''external'')
      in and_then (make_test_dir env test_dir w) (sync_new_manifest env m test_dir))"

definition run_command :: "env \<Rightarrow> string list \<Rightarrow> string \<Rightarrow> world \<Rightarrow> outcome" where
  "run_command env cmd cwd w =
     (RunCommand env cmd cwd (files w), log_event (CallRunCommand cmd cwd) w)"

definition git_push :: "env \<Rightarrow> string \<Rightarrow> bool \<Rightarrow> world \<Rightarrow> outcome" where
  "git_push env cwd dry w =
     (GitPushWithRetry env (PUSH_BRANCH env) cwd dry (files w),
      log_event (CallGitPushWithRetry (PUSH_BRANCH env) cwd dry) w)"

text \<open>\<open>PushChanges\<close>: \<open>shutil.move\<close> renames the staged file onto the live one.\<close>

definition PushChanges :: "env \<Rightarrow> manifest \<Rightarrow> world \<Rightarrow> outcome" where
  "PushChanges env m w =
     (case files w (new_manifest_path m) of
        None \<Rightarrow> (Some IOError, w)
      | Some content \<Rightarrow>
          (let w1 = w\<lparr>files := ((files w)(new_manifest_path m := None))
                                  (manifest_path m \<mapsto> content)\<rparr>
           in and_then
                (and_then
                   (run_command env [''git'', ''add'', manifest_path m] (manifest_dir m) w1)
                   (run_command env
                      [''git'', ''commit'', ''-m'',
                       ''Auto-updating manifest to match .DEPS.git file'']
                      (manifest_dir m)))
                (git_push env (manifest_dir m) (dryrun m))))"

text \<open>\<open>except ManifestException\<close>: logged and raised again; anything else passes through.\<close>

definition on_exception :: "outcome \<Rightarrow> outcome" where
  "on_exception r =
     (case r of
        (Some (ManifestException msg), w) \<Rightarrow>
          (Some (ManifestException msg),
           log_event (Error ''Errors encountered while updating manifest!'') w)
      | _ \<Rightarrow> r)"

definition update_if_different :: "env \<Rightarrow> manifest \<Rightarrow> world \<Rightarrow> outcome" where
  "update_if_different env m w =
     (case IsNewManifestDifferent env m w of
        (Inl e, w') \<Rightarrow> (Some e, w')
      | (Inr different, w') \<Rightarrow>
          (if different
           then and_then (TestNewManifest env m w') (PushChanges env m)
           else done_ok w'))"

definition PerformUpdate :: "env \<Rightarrow> manifest \<Rightarrow> world \<Rightarrow> outcome" where
  "PerformUpdate env m w =
     on_exception (and_then (CreateNewManifest env m w) (update_if_different env m))"

section \<open>Notions used to state the properties\<close>

text \<open>The character before the position reached after consuming \<open>g\<close>.\<close>

definition prev_after :: "char option \<Rightarrow> string \<Rightarrow> char option" where
  "prev_after prev g = (if g = [] then prev else Some (last g))"

text \<open>The positions at which the literal \<open>p\<close> occurs in \<open>s\<close>, in increasing order.\<close>

fun occurrences :: "string \<Rightarrow> string \<Rightarrow> nat list" where
  "occurrences p [] = (if p = [] then [0] else [])"
| "occurrences p (c # cs) =
     (if prefix p (c # cs) then [0] else []) @ map Suc (occurrences p cs)"

text \<open>
  The partition as the specification words it, for comparison with \<^const>\<open>match_markers\<close>:
  the first occurrence of the begin marker, and the first occurrence of the end marker
  after it.
\<close>

definition spec_first_partition ::
  "string \<Rightarrow> string \<Rightarrow> string \<Rightarrow> (string \<times> string \<times> string) option" where
  "spec_first_partition b e s =
     (case occurrences b s of
        [] \<Rightarrow> None
      | i # _ \<Rightarrow>
          (case occurrences e (drop (i + length b) s) of
             [] \<Rightarrow> None
           | j # _ \<Rightarrow>
               Some (take i s,
                     take j (drop (i + length b) s),
                     drop (i + length b + j + length e) s)))"

text \<open>
  The condition of the safety check as the specification words it: the project has a
  \<open>path\<close> attribute, and that attribute does not start with \<open>chromium/\<close>.
\<close>

definition spec_foreign_path :: "string \<times> attributes \<Rightarrow> bool" where
  "spec_foreign_path project =
     (case map_of (snd project) ''path'' of
        None \<Rightarrow> False
      | Some path \<Rightarrow> \<not> startswith path ''chromium/'')"

text \<open>The condition with the project that has no \<open>path\<close> attribute included.\<close>

definition no_chromium_path :: "string \<times> attributes \<Rightarrow> bool" where
  "no_chromium_path project =
     (case map_of (snd project) ''path'' of
        None \<Rightarrow> True
      | Some path \<Rightarrow> \<not> startswith path ''chromium/'')"

text \<open>The items of a mapping that map to project \<open>p\<close>; the warnings about \<open>p\<close>.\<close>

definition paths_of :: "string \<Rightarrow> (string \<times> string) list \<Rightarrow> (string \<times> string) list" where
  "paths_of p mappings = filter (\<lambda>mapping. snd mapping = p) mappings"

fun is_double_checkout_of :: "string \<Rightarrow> warning \<Rightarrow> bool" where
  "is_double_checkout_of p (DoubleCheckout project rel_path) = (project = p)"
| "is_double_checkout_of p (Skipping project deps_file) = False"

text \<open>What a file holds, the absent file read as empty.\<close>

definition content :: "world \<Rightarrow> string \<Rightarrow> string" where
  "content w path = (case files w path of None \<Rightarrow> [] | Some c \<Rightarrow> c)"

text \<open>
  Appending \<open>x\<close> to the file \<open>f\<close> and the warnings \<open>ws\<close> to the log, in one step; and the
  statement that a piece of the builder does just that once the file is open, with an
  outcome, a text and warnings that do not depend on the world it starts from.
\<close>

definition emit :: "string \<Rightarrow> string \<Rightarrow> warning list \<Rightarrow> world \<Rightarrow> world" where
  "emit f x ws w =
     w\<lparr>files := (files w)(f \<mapsto> content w f @ x), trace := trace w @ map Warning ws\<rparr>"

definition emits ::
  "(world \<Rightarrow> outcome) \<Rightarrow> string \<Rightarrow> error option \<Rightarrow> string \<Rightarrow> warning list \<Rightarrow> bool" where
  "emits S f r x ws = (\<forall>w. files w f \<noteq> None \<longrightarrow> S w = (r, emit f x ws w))"

text \<open>
  Two readings of a dependency file are the same mapping when they are the same result, or
  when they are the items of one dictionary in two iteration orders and no two paths of it
  share a project id.
\<close>

definition same_mappings ::
  "error + (string \<times> string) list \<Rightarrow> error + (string \<times> string) list \<Rightarrow> bool" where
  "same_mappings r1 r2 =
     (r1 = r2 \<or>
      (case (r1, r2) of
         (Inr ms1, Inr ms2) \<Rightarrow>
           set ms1 = set ms2 \<and> distinct (map fst ms1) \<and> distinct (map fst ms2) \<and>
           distinct (map snd ms1)
       | _ \<Rightarrow> False))"


section \<open>A concrete run\<close>

text \<open>
  A small manifest with one autogenerated region, the object that \<open>main\<close> builds for the
  external manifest, and collaborators that answer without raising. They serve as concrete
  inputs for the properties below.
\<close>

definition example_top :: string where
  "example_top = ''<manifest>\<newline>''"

definition example_body :: string where
  "example_body = ''\<newline>\<newline> <project name=\"chromium/old\" path=\"chromium/old\"/>\<newline>''"

definition example_bottom :: string where
  "example_bottom = ''\<newline>\<newline> <default remote=\"cros\"/>\<newline></manifest>\<newline>''"

definition example_lines :: string where
  "example_lines =
     example_top @ strip BEGIN_MARKER @ example_body @ strip END_MARKER @ example_bottom"

definition example_manifest :: manifest where
  "example_manifest =
     Manifest ''/repo'' ''/tmp/update-manifest/oldlayout.xml'' ''/tmp/testroot'' False True"

definition example_mappings :: "(string \<times> string) list" where
  "example_mappings =
     [(''src/b'', ''chromium/b''), (''src/a'', ''chromium/a''), (''src/a2'', ''chromium/a'')]"

definition example_cros_mappings :: "(string \<times> string) list" where
  "example_cros_mappings = [(''src/third_party/foo'', ''chromiumos/foo'')]"

definition example_env :: env where
  "example_env =
     \<lparr>ParseManifest =
        (\<lambda>doc. if take 5 doc = ''<?xml''
               then Inr [(''chromium/old'', [(''name'', ''chromium/old''), (''path'', ''chromium/old'')])]
               else Inr [(''chromiumos/foo'', [(''name'', ''chromiumos/foo''), (''path'', ''src/foo'')])]),
      GetPathToProjectMappings =
        (\<lambda>deps_file. if deps_file = ''/repo/chromium/src/.DEPS.git''
                     then Inr example_mappings else Inr example_cros_mappings),
      PrepForChanges = (\<lambda>dir fs. Inr fs),
      Sync = (\<lambda>url dir local fs. None),
      RunCommand = (\<lambda>cmd cwd fs. None),
      GitPushWithRetry = (\<lambda>branch cwd dry fs. None),
      makedirs = (\<lambda>dir fs. None),
      st_mtime = (\<lambda>path fs. 0),
      stat_other = (\<lambda>path. None),
      MANIFEST_URL = ''ssh://gerrit/chromiumos/manifest'',
      MANIFEST_INT_URL = ''ssh://gerrit-int/chromeos/manifest-internal'',
      PUSH_BRANCH = ''temp_auto_checkin_branch''\<rparr>"

definition example_world :: world where
  "example_world =
     \<lparr>files = [''/tmp/update-manifest/oldlayout.xml'' \<mapsto> example_lines], trace = [],
      cmp_cache = []\<rparr>"

text \<open>A manifest whose end marker comes before its begin marker.\<close>

definition swapped_lines :: string where
  "swapped_lines =
     ''<manifest>\<newline>'' @ strip END_MARKER @ ''\<newline>'' @ strip BEGIN_MARKER @
     ''\<newline></manifest>\<newline>''"

definition swapped_world :: world where
  "swapped_world =
     \<lparr>files = [''/tmp/update-manifest/oldlayout.xml'' \<mapsto> swapped_lines], trace = [],
      cmp_cache = []\<rparr>"

text \<open>
  Two parsers for the safety check: one finds, in the region to be replaced, a project
  checked out outside \<open>chromium/\<close>; the other finds a project element that has no \<open>path\<close>
  attribute.
\<close>

definition foreign_projects :: projects where
  "foreign_projects =
     [(''chromium/old'', [(''name'', ''chromium/old''), (''path'', ''chromium/old'')]),
      (''chromiumos/foreign'', [(''name'', ''chromiumos/foreign''), (''path'', ''src/foreign'')])]"

definition foreign_env :: env where
  "foreign_env = example_env\<lparr>ParseManifest := (\<lambda>doc. Inr foreign_projects)\<rparr>"

definition nopath_projects :: projects where
  "nopath_projects = [(''foo'', [(''name'', ''foo'')])]"

definition nopath_env :: env where
  "nopath_env = example_env\<lparr>ParseManifest := (\<lambda>doc. Inr nopath_projects)\<rparr>"

text \<open>A mapping in which three paths are checkouts of one project.\<close>

definition triple_mappings :: "(string \<times> string) list" where
  "triple_mappings = [(''src/a'', ''p''), (''src/b'', ''p''), (''src/c'', ''p'')]"

text \<open>
  What the example run stages, and the worlds of a second run: one in which that document
  has become the live manifest, and one that differs from the first world in everything
  but the live manifest.
\<close>

definition example_suffix :: string where
  "example_suffix = '' <default remote=\"cros\"/>\<newline></manifest>\<newline>''"

definition example_staged :: string where
  "example_staged =
     example_top @ BEGIN_MARKER @ EXTERNAL_HEADER @
     EXTERNAL_PROJECT ''chromium/src'' ''chromium/src'' @
     render EXTERNAL_PROJECT
       (written (convert ''/repo/chromium/src/.DEPS.git'' None example_mappings)) @
     ''\<newline>'' @ CROS_HEADER @
     render EXTERNAL_PROJECT
       (written (convert ''/repo/chromium/src/tools/cros.DEPS/DEPS''
          (Some [''chromiumos/foo'']) example_cros_mappings)) @
     ''\<newline>'' @ END_MARKER @ example_suffix"


definition littered_world :: world where
  "littered_world =
     \<lparr>files = [''/tmp/update-manifest/oldlayout.xml'' \<mapsto> example_lines,
               ''/tmp/update-manifest/new_update_manifest.xml'' \<mapsto> ''left over'',
               ''/tmp/update-manifest/README'' \<mapsto> ''notes''],
      trace = [Error ''Failed to sync with new manifest!''],
      cmp_cache = []\<rparr>"

text \<open>A manifest with nothing but blank lines after its end marker.\<close>

definition blank_suffix_lines :: string where
  "blank_suffix_lines =
     ''<manifest></manifest>\<newline>'' @ strip BEGIN_MARKER @ ''\<newline>\<newline>'' @
     strip END_MARKER @ ''\<newline>\<newline>''"

definition blank_suffix_world :: world where
  "blank_suffix_world =
     \<lparr>files = [''/tmp/update-manifest/oldlayout.xml'' \<mapsto> blank_suffix_lines], trace = [],
      cmp_cache = []\<rparr>"

text \<open>
  The example mapping in another iteration order, in which the other of the two paths of
  \<open>chromium/a\<close> comes first, and what the builder then stages.
\<close>

definition reordered_mappings :: "(string \<times> string) list" where
  "reordered_mappings =
     [(''src/a2'', ''chromium/a''), (''src/b'', ''chromium/b''), (''src/a'', ''chromium/a'')]"

definition reordered_deps :: "string \<Rightarrow> error + (string \<times> string) list" where
  "reordered_deps deps_file =
     (if deps_file = ''/repo/chromium/src/.DEPS.git''
      then Inr reordered_mappings else Inr example_cros_mappings)"

definition reordered_env :: env where
  "reordered_env = example_env\<lparr>GetPathToProjectMappings := reordered_deps\<rparr>"

definition reordered_staged :: string where
  "reordered_staged =
     example_top @ BEGIN_MARKER @ EXTERNAL_HEADER @
     EXTERNAL_PROJECT ''chromium/src'' ''chromium/src'' @
     render EXTERNAL_PROJECT
       (written (convert ''/repo/chromium/src/.DEPS.git'' None reordered_mappings)) @
     ''\<newline>'' @ CROS_HEADER @
     render EXTERNAL_PROJECT
       (written (convert ''/repo/chromium/src/tools/cros.DEPS/DEPS''
          (Some [''chromiumos/foo'']) example_cros_mappings)) @
     ''\<newline>'' @ END_MARKER @ example_suffix"

text \<open>A mapping in which every path has a project id of its own, in two iteration orders.\<close>

definition distinct_mappings :: "(string \<times> string) list" where
  "distinct_mappings = [(''src/b'', ''chromium/b''), (''src/a'', ''chromium/a'')]"

definition distinct_reordered :: "(string \<times> string) list" where
  "distinct_reordered = [(''src/a'', ''chromium/a''), (''src/b'', ''chromium/b'')]"

definition distinct_deps :: "string \<Rightarrow> error + (string \<times> string) list" where
  "distinct_deps deps_file =
     (if deps_file = ''/repo/chromium/src/.DEPS.git''
      then Inr distinct_mappings else Inr example_cros_mappings)"

definition distinct_reordered_deps :: "string \<Rightarrow> error + (string \<times> string) list" where
  "distinct_reordered_deps deps_file =
     (if deps_file = ''/repo/chromium/src/.DEPS.git''
      then Inr distinct_reordered else Inr example_cros_mappings)"

definition distinct_env :: env where
  "distinct_env = example_env\<lparr>GetPathToProjectMappings := distinct_deps\<rparr>"

text \<open>
  Two worlds in which the cache of \<open>filecmp\<close> holds an outcome from an earlier comparison of
  the staged and the live manifest, made in the same process when the two files had the
  sizes and modification times they have now.
\<close>

definition stale_different_world :: world where
  "stale_different_world =
     \<lparr>files = [''/tmp/update-manifest/oldlayout.xml'' \<mapsto> ''AAAA'',
               ''/tmp/update-manifest/new_update_manifest.xml'' \<mapsto> ''AAAA''],
      trace = [],
      cmp_cache = [((''/tmp/update-manifest/new_update_manifest.xml'',
                     ''/tmp/update-manifest/oldlayout.xml'',
                     (S_IFREG, 4, 0), (S_IFREG, 4, 0)), False)]\<rparr>"



section \<open>Lemmas about the matchers\<close>

lemma prev_after_Nil [simp]: "prev_after prev [] = prev"
  by (simp add: prev_after_def)

lemma prev_after_Cons [simp]: "prev_after prev (c # g) = prev_after (Some c) g"
  by (simp add: prev_after_def)

lemma prev_after_append [simp]: "prev_after prev (g @ h) = prev_after (prev_after prev g) h"
  by (induction g arbitrary: prev) simp_all

lemma here_Some_iff [simp]: "here k prev s = Some (g, r) \<longleftrightarrow> g = [] \<and> k prev s = Some r"
  by (auto simp: here_def split: option.splits)

lemma here_None_iff [simp]: "here k prev s = None \<longleftrightarrow> k prev s = None"
  by (simp add: here_def split: option.splits)

lemma star_None_iff:
  "star P k prev s = None \<longleftrightarrow>
     (\<forall>g rest. s = g @ rest \<and> (\<forall>c \<in> set g. P c) \<longrightarrow> k (prev_after prev g) rest = None)"
proof (induction s arbitrary: prev)
  case Nil
  then show ?case by simp
next
  case (Cons c cs)
  let ?R = "\<forall>g rest. c # cs = g @ rest \<and> (\<forall>x \<in> set g. P x) \<longrightarrow>
                k (prev_after prev g) rest = None"
  have split: "star P k prev (c # cs) = None \<longleftrightarrow>
          (P c \<longrightarrow> star P k (Some c) cs = None) \<and> k prev (c # cs) = None"
    by (auto split: option.splits)
  show ?case
  proof
    assume "star P k prev (c # cs) = None"
    with split have tail: "P c \<Longrightarrow> star P k (Some c) cs = None"
      and now: "k prev (c # cs) = None" by simp_all
    show ?R
    proof (intro allI impI, elim conjE)
      fix g rest
      assume eq: "c # cs = g @ rest" and all: "\<forall>x \<in> set g. P x"
      show "k (prev_after prev g) rest = None"
      proof (cases g)
        case Nil
        with eq now show ?thesis by simp
      next
        case (Cons x h)
        with eq all have "P c" "cs = h @ rest" "\<forall>x \<in> set h. P x" "x = c" by simp_all
        with tail Cons.IH[of "Some c"] have "k (prev_after (Some c) h) rest = None" by blast
        then show ?thesis using Cons \<open>x = c\<close> by simp
      qed
    qed
  next
    assume R: ?R
    from R[rule_format, of "[]" "c # cs"] have now: "k prev (c # cs) = None" by simp
    have "star P k (Some c) cs = None" if "P c"
      unfolding Cons.IH
    proof (intro allI impI, elim conjE)
      fix h rest
      assume "cs = h @ rest" "\<forall>x \<in> set h. P x"
      with that R[rule_format, of "c # h" rest]
      show "k (prev_after (Some c) h) rest = None" by simp
    qed
    with now split show "star P k prev (c # cs) = None" by simp
  qed
qed

lemma star_Some:
  assumes "star P k prev s = Some (g, r)"
  shows "\<exists>rest. s = g @ rest \<and> (\<forall>c \<in> set g. P c) \<and> k (prev_after prev g) rest = Some r"
  using assms
proof (induction s arbitrary: prev g)
  case Nil
  then show ?case by simp
next
  case (Cons c cs)
  show ?case
  proof (cases "if P c then star P k (Some c) cs else None")
    case None
    with Cons.prems show ?thesis by simp
  next
    case (Some a)
    obtain g' r' where a: "a = (g', r')" by (cases a)
    from Cons.prems Some a have g: "g = c # g'" and r: "r' = r" by simp_all
    from Some a r have Pc: "P c" and st: "star P k (Some c) cs = Some (g', r)"
      by (auto split: if_splits)
    from Cons.IH[OF st] Pc show ?thesis unfolding g by auto
  qed
qed

lemma star_maximal:
  assumes "star P k prev s = Some (g, r)"
    and "s = g' @ rest'" and "\<forall>c \<in> set g'. P c" and "length g < length g'"
  shows "k (prev_after prev g') rest' = None"
  using assms
proof (induction s arbitrary: prev g g')
  case Nil
  then show ?case by simp
next
  case (Cons c cs)
  from Cons.prems(4) obtain x h where g': "g' = x # h" by (cases g') auto
  with Cons.prems(2) have x: "x = c" and cs: "cs = h @ rest'" by simp_all
  from Cons.prems(3) g' x have Pc: "P c" and Ph: "\<forall>c \<in> set h. P c" by simp_all
  show ?case
  proof (cases "star P k (Some c) cs")
    case None
    then have "k (prev_after (Some c) h) rest' = None"
      using cs Ph unfolding star_None_iff by blast
    then show ?thesis by (simp add: g' x)
  next
    case (Some a)
    obtain g0 r0 where a: "a = (g0, r0)" by (cases a)
    from Cons.prems(1) Some a Pc have g: "g = c # g0" and r0: "r0 = r" by simp_all
    from Cons.prems(4) g g' have len: "length g0 < length h" by simp
    from Some a r0 have st: "star P k (Some c) cs = Some (g0, r)" by simp
    from Cons.IH[OF st cs Ph len] show ?thesis by (simp add: g' x)
  qed
qed

lemma star_accept [simp]: "star any_char accept prev s = Some (s, ())"
  by (induction s arbitrary: prev) (simp_all add: accept_def any_char_def)

lemma literal_eq:
  "literal p k prev s = (if prefix p s then k (prev_after prev p) (drop (length p) s) else None)"
  by (induction p k prev s rule: literal.induct) simp_all

lemma tail_matcher:
  "literal e (star any_char accept) prev s =
     (if prefix e s then Some (drop (length e) s, ()) else None)"
  by (simp add: literal_eq)

lemma prefix_decomp: "prefix p s \<Longrightarrow> s = p @ drop (length p) s"
  by (auto simp: prefix_def)

lemma body_matcher_Some:
  assumes "star any_char (literal e (star any_char accept)) prev s = Some (m, u, ())"
  shows "s = m @ e @ u"
proof -
  from star_Some[OF assms] obtain rest where
    s: "s = m @ rest" and k: "literal e (star any_char accept) (prev_after prev m) rest = Some (u, ())"
    by blast
  from k have "prefix e rest" "u = drop (length e) rest"
    by (auto simp: tail_matcher split: if_splits)
  then have "rest = e @ u" by (simp add: prefix_decomp)
  with s show ?thesis by simp
qed

lemma body_matcher_complete:
  "star any_char (literal e (star any_char accept)) prev (m @ e @ u) \<noteq> None"
proof -
  have "literal e (star any_char accept) (prev_after prev m) (e @ u) \<noteq> None"
    by (simp add: tail_matcher)
  then show ?thesis
    unfolding star_None_iff by (auto simp: any_char_def)
qed

lemma body_matcher_maximal:
  assumes "star any_char (literal e (star any_char accept)) prev s = Some (m, u, ())"
    and "s = m' @ e @ u'"
  shows "length m' \<le> length m"
proof (rule ccontr)
  assume "\<not> length m' \<le> length m"
  then have "length m < length m'" by simp
  from star_maximal[OF assms(1) assms(2) _ this]
  have "literal e (star any_char accept) (prev_after prev m') (e @ u') = None"
    by (simp add: any_char_def)
  then show False by (simp add: tail_matcher)
qed

lemma match_markers_sound:
  assumes "match_markers b e s = Some (t, m, u)"
  shows "s = t @ b @ m @ e @ u"
proof -
  let ?K2 = "star any_char (literal e (star any_char accept))"
  from assms have "star any_char (literal b ?K2) None s = Some (t, m, u, ())"
    by (auto simp: match_markers_def split: option.splits)
  from star_Some[OF this] obtain rest where
    s: "s = t @ rest" and k: "literal b ?K2 (prev_after None t) rest = Some (m, u, ())"
    by blast
  from k have p: "prefix b rest"
    and k2: "?K2 (prev_after (prev_after None t) b) (drop (length b) rest) = Some (m, u, ())"
    by (auto simp: literal_eq split: if_splits)
  from body_matcher_Some[OF k2] prefix_decomp[OF p] have "rest = b @ m @ e @ u" by simp
  with s show ?thesis by simp
qed

lemma match_markers_complete:
  assumes "s = t' @ b @ m' @ e @ u'"
  shows "match_markers b e s \<noteq> None"
proof -
  let ?K2 = "star any_char (literal e (star any_char accept))"
  have "literal b ?K2 (prev_after None t') (b @ m' @ e @ u') \<noteq> None"
    using body_matcher_complete by (simp add: literal_eq)
  then have "star any_char (literal b ?K2) None s \<noteq> None"
    unfolding star_None_iff assms by (auto simp: any_char_def)
  then show ?thesis
    by (auto simp: match_markers_def split: option.splits)
qed

lemma match_markers_maximal:
  assumes r: "match_markers b e s = Some (t, m, u)"
    and d: "s = t' @ b @ m' @ e @ u'"
  shows "length t' \<le> length t \<and> length (t' @ b @ m') \<le> length (t @ b @ m)"
proof -
  let ?K2 = "star any_char (literal e (star any_char accept))"
  from r have st: "star any_char (literal b ?K2) None s = Some (t, m, u, ())"
    by (auto simp: match_markers_def split: option.splits)
  have le1: "length t' \<le> length t"
  proof (rule ccontr)
    assume "\<not> length t' \<le> length t"
    then have "length t < length t'" by simp
    from star_maximal[OF st d _ this]
    have "literal b ?K2 (prev_after None t') (b @ m' @ e @ u') = None"
      by (simp add: any_char_def)
    then show False using body_matcher_complete by (simp add: literal_eq)
  qed
  from star_Some[OF st] obtain rest where
    s: "s = t @ rest" and k: "literal b ?K2 (prev_after None t) rest = Some (m, u, ())"
    by blast
  from k have p: "prefix b rest"
    and k2: "?K2 (prev_after (prev_after None t) b) (drop (length b) rest) = Some (m, u, ())"
    by (auto simp: literal_eq split: if_splits)
  have le3: "length (t' @ b @ m') \<le> length (t @ b @ m)"
  proof (cases "length (t @ b) \<le> length (t' @ b @ m')")
    case True
    define m'' where "m'' = drop (length (t @ b)) (t' @ b @ m')"
    have "t @ b @ drop (length b) rest = s" using s prefix_decomp[OF p] by simp
    then have "drop (length b) rest = drop (length (t @ b)) s"
      by (metis append.assoc append_eq_conv_conj)
    also have "\<dots> = m'' @ e @ u'"
      unfolding m''_def d using True by simp
    finally have "drop (length b) rest = m'' @ e @ u'" .
    from body_matcher_maximal[OF k2 this] have "length m'' \<le> length m" .
    then show ?thesis unfolding m''_def using True by simp
  next
    case False
    then show ?thesis by simp
  qed
  from le1 le3 show ?thesis by simp
qed

lemma star_NoneD:
  assumes "star P k prev s = None" and "s = g @ rest" and "\<forall>c \<in> set g. P c"
  shows "k (prev_after prev g) rest = None"
proof -
  from assms(1) have "\<forall>g rest. s = g @ rest \<and> (\<forall>c \<in> set g. P c) \<longrightarrow>
      k (prev_after prev g) rest = None"
    by (rule iffD1[OF star_None_iff])
  from this[rule_format, of g rest] assms(2,3) show ?thesis by simp
qed

lemma star_not_None:
  assumes "s = g @ rest" and "\<forall>c \<in> set g. P c" and "k (prev_after prev g) rest \<noteq> None"
  shows "star P k prev s \<noteq> None"
proof
  assume "star P k prev s = None"
  from star_NoneD[of P k prev s g rest, OF this assms(1,2)] assms(3) show False by simp
qed

lemma star_NoneI:
  assumes "\<And>g rest. s = g @ rest \<Longrightarrow> \<forall>c \<in> set g. P c \<Longrightarrow> k (prev_after prev g) rest = None"
  shows "star P k prev s = None"
proof (rule iffD2[OF star_None_iff], intro allI impI, elim conjE)
  fix g rest assume "s = g @ rest" "\<forall>c \<in> set g. P c"
  then show "k (prev_after prev g) rest = None" by (rule assms)
qed

lemma word_matcher_None_iff:
  "plus_re non_space (star any_char accept) prev s = None \<longleftrightarrow> (s = [] \<or> is_space (hd s))"
proof (cases s)
  case Nil
  then show ?thesis by simp
next
  case (Cons c cs)
  have "star non_space (star any_char accept) (Some c) cs \<noteq> None"
    by (rule star_not_None[of _ "[]" cs]) simp_all
  with Cons show ?thesis
    by (cases "star non_space (star any_char accept) (Some c) cs") (auto simp: non_space_def)
qed

lemma word_matcher_Some:
  assumes "plus_re non_space (star any_char accept) prev s = Some (word, rest, ())"
  shows "s = word @ rest \<and> word \<noteq> [] \<and> \<not> is_space (hd word)"
proof (cases s)
  case Nil
  with assms show ?thesis by simp
next
  case (Cons c cs)
  from assms Cons have c: "non_space c"
    by (simp split: if_splits)
  from assms Cons c obtain g where
    st: "star non_space (star any_char accept) (Some c) cs = Some (g, rest, ())"
    and w: "word = c # g"
    by (cases "star non_space (star any_char accept) (Some c) cs") auto
  from star_Some[OF st] obtain r where "cs = g @ r" "star any_char accept (prev_after (Some c) g) r = Some (rest, ())"
    by blast
  then have "cs = g @ rest" by simp
  with Cons w c show ?thesis by (simp add: non_space_def)
qed

lemma line_matcher_None_iff:
  "star is_space (plus_re non_space (star any_char accept)) prev s = None \<longleftrightarrow>
     (\<forall>c \<in> set s. is_space c)"
proof
  let ?W = "plus_re non_space (star any_char accept)"
  assume none: "star is_space ?W prev s = None"
  show "\<forall>c \<in> set s. is_space c"
  proof (rule ccontr)
    assume "\<not> (\<forall>c \<in> set s. is_space c)"
    then have d: "dropWhile is_space s \<noteq> []" by (simp add: dropWhile_eq_Nil_conv)
    then have "\<not> is_space (hd (dropWhile is_space s))" by (rule hd_dropWhile)
    with d have 1: "?W (prev_after prev (takeWhile is_space s)) (dropWhile is_space s) \<noteq> None"
      by (simp only: word_matcher_None_iff) simp
    have 2: "s = takeWhile is_space s @ dropWhile is_space s" by simp
    have 3: "\<forall>c \<in> set (takeWhile is_space s). is_space c" by (auto dest: set_takeWhileD)
    from star_not_None[of s "takeWhile is_space s" "dropWhile is_space s" is_space ?W prev, OF 2 3 1]
    show False using none by simp
  qed
next
  let ?W = "plus_re non_space (star any_char accept)"
  assume all: "\<forall>c \<in> set s. is_space c"
  show "star is_space ?W prev s = None"
  proof (rule star_NoneI)
    fix g rest assume "s = g @ rest"
    with all have "rest = [] \<or> is_space (hd rest)" by (cases rest) auto
    then show "?W (prev_after prev g) rest = None" by (simp only: word_matcher_None_iff)
  qed
qed

lemma line_matcher_Some:
  assumes "star is_space (plus_re non_space (star any_char accept)) prev s = Some (spaces, word, rest, ())"
  shows "s = spaces @ word @ rest \<and> (\<forall>c \<in> set spaces. is_space c) \<and> word \<noteq> [] \<and> \<not> is_space (hd word)"
proof -
  from star_Some[OF assms] obtain r where s: "s = spaces @ r" and sp: "\<forall>c \<in> set spaces. is_space c"
    and k: "plus_re non_space (star any_char accept) (prev_after prev spaces) r = Some (word, rest, ())"
    by blast
  from word_matcher_Some[OF k] s sp show ?thesis by simp
qed

lemma match_bottom_None_iff:
  "match_bottom s = None \<longleftrightarrow> (\<forall>c \<in> set s. is_space c)"
proof -
  let ?I = "star is_space (plus_re non_space (star any_char accept))"
  have "match_bottom s = None \<longleftrightarrow> star is_space (bol ?I) None s = None"
    by (auto simp: match_bottom_def split: option.splits)
  also have "\<dots> \<longleftrightarrow> (\<forall>c \<in> set s. is_space c)"
  proof
    assume none: "star is_space (bol ?I) None s = None"
    from star_NoneD[OF none, of "[]" s]
    have "?I None s = None" by (simp add: bol_def)
    then show "\<forall>c \<in> set s. is_space c" by (simp only: line_matcher_None_iff)
  next
    assume all: "\<forall>c \<in> set s. is_space c"
    have "bol ?I (prev_after None g) rest = None" if "s = g @ rest" for g rest
    proof -
      from that all have "\<forall>c \<in> set rest. is_space c" by simp
      then have "?I (prev_after None g) rest = None" by (simp only: line_matcher_None_iff)
      then show ?thesis by (simp add: bol_def)
    qed
    then show "star is_space (bol ?I) None s = None"
      by (intro star_NoneI)
  qed
  finally show ?thesis .
qed

lemma match_bottom_Some:
  assumes "match_bottom s = Some r"
  shows "\<exists>ws. s = ws @ r \<and> (\<forall>c \<in> set ws. is_space c) \<and> (ws = [] \<or> last ws = newline) \<and>
           (\<exists>c \<in> set (takeWhile (\<lambda>c. c \<noteq> newline) r). \<not> is_space c)"
proof -
  let ?I = "star is_space (plus_re non_space (star any_char accept))"
  from assms obtain ws spaces word rest where
    st: "star is_space (bol ?I) None s = Some (ws, spaces, word, rest, ())"
    and r: "r = spaces @ word @ rest"
    by (auto simp: match_bottom_def split: option.splits)
  from star_Some[OF st] obtain r' where s: "s = ws @ r'" and ws: "\<forall>c \<in> set ws. is_space c"
    and k: "bol ?I (prev_after None ws) r' = Some (spaces, word, rest, ())"
    by blast
  from k have b: "prev_after None ws = None \<or> prev_after None ws = Some newline"
    and i: "?I (prev_after None ws) r' = Some (spaces, word, rest, ())"
    by (auto simp: bol_def split: if_splits)
  from line_matcher_Some[OF i] have r': "r' = spaces @ word @ rest"
    and sp: "\<forall>c \<in> set spaces. is_space c" and w: "word \<noteq> []" "\<not> is_space (hd word)"
    by simp_all
  from b have 3: "ws = [] \<or> last ws = newline"
    by (auto simp: prev_after_def split: if_splits)
  have nl: "is_space newline" by (simp add: is_space_def newline_def)
  have nonl: "newline \<notin> set spaces"
  proof
    assume "newline \<in> set spaces"
    then obtain a b' where ab: "spaces = a @ newline # b'" by (meson split_list)
    let ?g = "ws @ a @ [newline]"
    have "s = ?g @ (b' @ word @ rest)" using s r' ab by simp
    moreover have "\<forall>c \<in> set ?g. is_space c" using ws sp ab nl by auto
    moreover have "length ws < length ?g" by simp
    ultimately have "bol ?I (prev_after None ?g) (b' @ word @ rest) = None"
      by (rule star_maximal[OF st])
    then have "?I (Some newline) (b' @ word @ rest) = None"
      by (simp add: bol_def prev_after_def)
    then have "\<forall>c \<in> set (b' @ word @ rest). is_space c"
      by (simp only: line_matcher_None_iff)
    with w show False by (cases word) auto
  qed
  have "hd word \<noteq> newline" using w nl by auto
  have "takeWhile (\<lambda>c. c \<noteq> newline) r = spaces @ takeWhile (\<lambda>c. c \<noteq> newline) (word @ rest)"
    unfolding r using nonl by (intro takeWhile_append2) auto
  also have "word @ rest = hd word # tl word @ rest" using w by simp
  finally have "hd word \<in> set (takeWhile (\<lambda>c. c \<noteq> newline) r)"
    using \<open>hd word \<noteq> newline\<close> by simp
  with w have 4: "\<exists>c \<in> set (takeWhile (\<lambda>c. c \<noteq> newline) r). \<not> is_space c" by blast
  from s r r' ws 3 4 show ?thesis by blast
qed

section \<open>Lemmas about the builder\<close>

lemma content_emit [simp]: "content (emit f x ws w) f = content w f @ x"
  by (simp add: content_def emit_def)

lemma file_write_emit: "file_write f s w = emit f s [] w"
  by (cases "files w f") (simp_all add: file_write_def emit_def content_def)

lemma emit_emit [simp]: "emit f x ws (emit f y vs w) = emit f (y @ x) (vs @ ws) w"
  by (simp add: emit_def content_def)

lemma emit_Nil: "files w f \<noteq> None \<Longrightarrow> emit f [] [] w = w"
  by (auto simp: emit_def content_def fun_upd_idem)

lemma files_emit: "files (emit f x ws w) = (files w)(f \<mapsto> content w f @ x)"
  by (simp add: emit_def)

lemma files_emit_same [simp]: "files (emit f x ws w) f \<noteq> None"
  by (simp add: emit_def)

lemma trace_emit: "trace (emit f x ws w) = trace w @ map Warning ws"
  by (simp add: emit_def)

lemma content_open_w [simp]: "content (open_w f w) f = []"
  by (simp add: content_def open_w_def)

lemma files_open_w [simp]: "files (open_w f w) f \<noteq> None"
  by (simp add: open_w_def)

lemma emitsI: "(\<And>w. files w f \<noteq> None \<Longrightarrow> S w = (r, emit f x ws w)) \<Longrightarrow> emits S f r x ws"
  by (simp add: emits_def)

lemma emitsD: "emits S f r x ws \<Longrightarrow> files w f \<noteq> None \<Longrightarrow> S w = (r, emit f x ws w)"
  by (simp add: emits_def)

lemma emits_after:
  assumes "emits S f r x ws"
  shows "emits (\<lambda>w. S (emit f y vs w)) f r (y @ x) (vs @ ws)"
proof (rule emitsI)
  fix w :: world
  have "S (emit f y vs w) = (r, emit f x ws (emit f y vs w))"
    by (rule emitsD[OF assms]) simp
  then show "S (emit f y vs w) = (r, emit f (y @ x) (vs @ ws) w)" by simp
qed

lemma emits_and_then:
  assumes "emits S1 f r1 x1 ws1" and "emits S2 f r2 x2 ws2"
  shows "emits (\<lambda>w. and_then (S1 w) S2) f
           (if r1 = None then r2 else r1)
           (if r1 = None then x1 @ x2 else x1)
           (if r1 = None then ws1 @ ws2 else ws1)"
proof (rule emitsI)
  fix w :: world assume w: "files w f \<noteq> None"
  have 1: "S1 w = (r1, emit f x1 ws1 w)" by (rule emitsD[OF assms(1) w])
  have 2: "S2 (emit f x1 ws1 w) = (r2, emit f x2 ws2 (emit f x1 ws1 w))"
    by (rule emitsD[OF assms(2)]) simp
  show "and_then (S1 w) S2 =
          (if r1 = None then r2 else r1,
           emit f (if r1 = None then x1 @ x2 else x1) (if r1 = None then ws1 @ ws2 else ws1) w)"
    using 1 2 by (cases r1) (simp_all add: and_then_def)
qed

lemma emits_write: "emits (\<lambda>w. done_ok (file_write f s w)) f None s []"
  by (simp add: emits_def done_ok_def file_write_emit)

lemma emits_convert:
  "emits (ConvertDepsToManifest env d f t bl) f
     (case GetPathToProjectMappings env d of Inl e \<Rightarrow> Some e | Inr ms \<Rightarrow> None)
     (case GetPathToProjectMappings env d of Inl e \<Rightarrow> [] | Inr ms \<Rightarrow> render t (written (convert d bl ms)))
     (case GetPathToProjectMappings env d of Inl e \<Rightarrow> [] | Inr ms \<Rightarrow> warnings (convert d bl ms))"
proof (rule emitsI)
  fix w :: world assume "files w f \<noteq> None"
  then show "ConvertDepsToManifest env d f t bl w =
     (case GetPathToProjectMappings env d of Inl e \<Rightarrow> Some e | Inr ms \<Rightarrow> None,
      emit f (case GetPathToProjectMappings env d of Inl e \<Rightarrow> [] | Inr ms \<Rightarrow> render t (written (convert d bl ms)))
        (case GetPathToProjectMappings env d of Inl e \<Rightarrow> [] | Inr ms \<Rightarrow> warnings (convert d bl ms)) w)"
    by (cases "GetPathToProjectMappings env d")
       (simp_all add: ConvertDepsToManifest_def file_write_emit Let_def emit_Nil,
        simp add: emit_def)
qed

lemma external_emits:
  obtains r x ws where
    "emits (write_external_section env m top_part) (new_manifest_path m) r
       (top_part @ BEGIN_MARKER @ x) ws"
    and "(\<forall>d. \<exists>ms. GetPathToProjectMappings env d = Inr ms) \<Longrightarrow> r = None"
proof -
  let ?f = "new_manifest_path m"
  let ?d = "path_join (path_join (repo_root m) CHROMIUM_SRC_ROOT) ''.DEPS.git''"
  let ?y = "top_part @ BEGIN_MARKER @ EXTERNAL_HEADER @ EXTERNAL_PROJECT ''chromium/src'' ''chromium/src''"
  let ?S1 = "\<lambda>w. ConvertDepsToManifest env ?d ?f EXTERNAL_PROJECT None (emit ?f ?y [] w)"
  let ?S2 = "\<lambda>w. done_ok (file_write ?f ''\<newline>'' w)"
  have eq: "write_external_section env m top_part = (\<lambda>w. and_then (?S1 w) ?S2)"
    by (simp add: write_external_section_def Let_def file_write_emit fun_eq_iff)
  note e = emits_and_then[OF emits_after[OF emits_convert] emits_write,
      of env ?d ?f EXTERNAL_PROJECT None ?y "[]" "''\<newline>''"]
  show ?thesis
  proof (cases "GetPathToProjectMappings env ?d")
    case (Inl err)
    with e have "emits (write_external_section env m top_part) ?f (Some err)
        (top_part @ BEGIN_MARKER @ EXTERNAL_HEADER @ EXTERNAL_PROJECT ''chromium/src'' ''chromium/src'') []"
      unfolding eq by simp
    moreover have "\<not> (\<forall>d. \<exists>ms. GetPathToProjectMappings env d = Inr ms)"
      using Inl by (metis sum.distinct(1))
    ultimately show ?thesis using that by blast
  next
    case (Inr ms)
    with e have "emits (write_external_section env m top_part) ?f None
        (top_part @ BEGIN_MARKER @ EXTERNAL_HEADER @ EXTERNAL_PROJECT ''chromium/src'' ''chromium/src''
           @ render EXTERNAL_PROJECT (written (convert ?d None ms)) @ ''\<newline>'')
        (warnings (convert ?d None ms))"
      unfolding eq by simp
    then show ?thesis using that by blast
  qed
qed

lemma cros_emits:
  obtains r x ws where
    "emits (write_cros_section env m top_part bottom_part) (new_manifest_path m) r x ws"
    and "(\<forall>d. \<exists>ms. GetPathToProjectMappings env d = Inr ms) \<Longrightarrow>
         (\<exists>ps. ParseManifest env (top_part @ bottom_part) = Inr ps) \<Longrightarrow> r = None"
proof -
  let ?f = "new_manifest_path m"
  let ?d = "path_join (path_join (repo_root m) CHROMIUM_SRC_ROOT) ''tools/cros.DEPS/DEPS''"
  show ?thesis
  proof (cases "ParseManifest env (top_part @ bottom_part)")
    case (Inl err)
    have "emits (write_cros_section env m top_part bottom_part) ?f (Some err) CROS_HEADER []"
      using Inl
      by (intro emitsI)
         (simp add: write_cros_section_def Let_def file_write_emit GetListOfProjects_def
            ParseManifestString_def)
    then show ?thesis using that Inl by (metis sum.distinct(1))
  next
    case (Inr ps)
    let ?bl = "Some (map fst ps)"
    let ?S1 = "\<lambda>w. ConvertDepsToManifest env ?d ?f EXTERNAL_PROJECT ?bl (emit ?f CROS_HEADER [] w)"
    let ?S2 = "\<lambda>w. done_ok (file_write ?f ''\<newline>'' w)"
    have eq: "write_cros_section env m top_part bottom_part = (\<lambda>w. and_then (?S1 w) ?S2)"
      using Inr
      by (simp add: write_cros_section_def Let_def file_write_emit fun_eq_iff
            GetListOfProjects_def ParseManifestString_def)
    note e = emits_and_then[OF emits_after[OF emits_convert] emits_write,
        of env ?d ?f EXTERNAL_PROJECT ?bl CROS_HEADER "[]" "''\<newline>''"]
    show ?thesis
    proof (cases "GetPathToProjectMappings env ?d")
      case (Inl err)
      with e have "emits (write_cros_section env m top_part bottom_part) ?f (Some err) CROS_HEADER []"
        unfolding eq by simp
      moreover have "\<not> (\<forall>d. \<exists>ms. GetPathToProjectMappings env d = Inr ms)"
        using Inl by (metis sum.distinct(1))
      ultimately show ?thesis using that by blast
    next
      case (Inr ms)
      with e have "emits (write_cros_section env m top_part bottom_part) ?f None
          (CROS_HEADER @ render EXTERNAL_PROJECT (written (convert ?d ?bl ms)) @ ''\<newline>'')
          (warnings (convert ?d ?bl ms))"
        unfolding eq by simp
      then show ?thesis using that by blast
    qed
  qed
qed

lemma internal_emits:
  obtains r x ws where
    "emits (write_internal_section env m) (new_manifest_path m) r x ws"
    and "(\<forall>d. \<exists>ms. GetPathToProjectMappings env d = Inr ms) \<Longrightarrow> r = None"
proof (cases "internal m")
  case False
  have "emits (write_internal_section env m) (new_manifest_path m) None [] []"
    using False by (intro emitsI) (simp add: write_internal_section_def done_ok_def emit_Nil)
  then show ?thesis using that by blast
next
  case True
  let ?f = "new_manifest_path m"
  let ?d = "path_join3 (repo_root m) CHROMIUM_SRC_INTERNAL ''.DEPS.git''"
  let ?y = "INTERNAL_HEADER @ INTERNAL_PROJECT ''chromium/src-internal'' ''chrome/src-internal''"
  let ?S1 = "\<lambda>w. ConvertDepsToManifest env ?d ?f INTERNAL_PROJECT None (emit ?f ?y [] w)"
  let ?S2 = "\<lambda>w. done_ok (file_write ?f ''\<newline>'' w)"
  have eq: "write_internal_section env m = (\<lambda>w. and_then (?S1 w) ?S2)"
    using True by (simp add: write_internal_section_def Let_def file_write_emit fun_eq_iff)
  note e = emits_and_then[OF emits_after[OF emits_convert] emits_write,
      of env ?d ?f INTERNAL_PROJECT None ?y "[]" "''\<newline>''"]
  show ?thesis
  proof (cases "GetPathToProjectMappings env ?d")
    case (Inl err)
    with e have "emits (write_internal_section env m) ?f (Some err) ?y []"
      unfolding eq by simp
    moreover have "\<not> (\<forall>d. \<exists>ms. GetPathToProjectMappings env d = Inr ms)"
      using Inl by (metis sum.distinct(1))
    ultimately show ?thesis using that by blast
  next
    case (Inr ms)
    with e have "emits (write_internal_section env m) ?f None
        (?y @ render INTERNAL_PROJECT (written (convert ?d None ms)) @ ''\<newline>'')
        (warnings (convert ?d None ms))"
      unfolding eq by simp
    then show ?thesis using that by blast
  qed
qed

lemma end_emits:
  "emits (write_end_section m bottom_part) (new_manifest_path m)
     (case match_bottom bottom_part of None \<Rightarrow> Some AttributeError | Some g \<Rightarrow> None)
     (END_MARKER @ (case match_bottom bottom_part of None \<Rightarrow> [] | Some g \<Rightarrow> g)) []"
  by (rule emitsI, cases "match_bottom bottom_part")
     (simp_all add: write_end_section_def Let_def file_write_emit done_ok_def)

lemma write_new_manifest_emits:
  obtains r x ws where
    "\<And>w. write_new_manifest env m top_part bottom_part w =
       (r, emit (new_manifest_path m) (top_part @ BEGIN_MARKER @ x) ws (open_w (new_manifest_path m) w))"
    and "r = None \<Longrightarrow> \<exists>mid g. match_bottom bottom_part = Some g \<and> x = mid @ END_MARKER @ g"
    and "(\<forall>d. \<exists>ms. GetPathToProjectMappings env d = Inr ms) \<Longrightarrow>
         (\<exists>ps. ParseManifest env (top_part @ bottom_part) = Inr ps) \<Longrightarrow>
         r = (case match_bottom bottom_part of None \<Rightarrow> Some AttributeError | Some g \<Rightarrow> None) \<and>
         (\<exists>mid. x = mid @ END_MARKER @ (case match_bottom bottom_part of None \<Rightarrow> [] | Some g \<Rightarrow> g))"
proof -
  let ?f = "new_manifest_path m"
  let ?deps = "\<forall>d. \<exists>ms. GetPathToProjectMappings env d = Inr ms"
  let ?parse = "\<exists>ps. ParseManifest env (top_part @ bottom_part) = Inr ps"
  let ?re = "case match_bottom bottom_part of None \<Rightarrow> Some AttributeError | Some g \<Rightarrow> None"
  let ?xe = "END_MARKER @ (case match_bottom bottom_part of None \<Rightarrow> [] | Some g \<Rightarrow> g)"
  obtain r1 x1 ws1 where
    e1: "emits (write_external_section env m top_part) ?f r1 (top_part @ BEGIN_MARKER @ x1) ws1"
    and ok1: "?deps \<Longrightarrow> r1 = None"
    by (rule external_emits[where env=env and m=m and top_part=top_part]) blast
  obtain r2 x2 ws2 where
    e2: "emits (write_cros_section env m top_part bottom_part) ?f r2 x2 ws2"
    and ok2: "?deps \<Longrightarrow> ?parse \<Longrightarrow> r2 = None"
    by (rule cros_emits[where env=env and m=m and top_part=top_part and bottom_part=bottom_part]) blast
  obtain r3 x3 ws3 where
    e3: "emits (write_internal_section env m) ?f r3 x3 ws3"
    and ok3: "?deps \<Longrightarrow> r3 = None"
    by (rule internal_emits[where env=env and m=m]) blast
  note e4 = end_emits[of m bottom_part]
  note e12 = emits_and_then[OF e1 e2]
  note e123 = emits_and_then[OF e12 e3]
  note e1234 = emits_and_then[OF e123 e4]
  have run: "write_new_manifest env m top_part bottom_part w =
      (and_then (and_then (and_then (write_external_section env m top_part (open_w ?f w))
         (write_cros_section env m top_part bottom_part)) (write_internal_section env m))
         (write_end_section m bottom_part))" for w
    by (simp add: write_new_manifest_def)
  have opened: "files (open_w ?f w) ?f \<noteq> None" for w by simp
  consider (a) "r1 \<noteq> None" | (b) "r1 = None" "r2 \<noteq> None"
    | (c) "r1 = None" "r2 = None" "r3 \<noteq> None"
    | (d) "r1 = None" "r2 = None" "r3 = None" by blast
  then show ?thesis
  proof cases
    case a
    have "write_new_manifest env m top_part bottom_part w =
       (r1, emit ?f (top_part @ BEGIN_MARKER @ x1) ws1 (open_w ?f w))" for w
      unfolding run using emitsD[OF e1234 opened[of w]] a by simp
    then show ?thesis using that[of r1 x1 ws1] a ok1 by blast
  next
    case b
    have "write_new_manifest env m top_part bottom_part w =
       (r2, emit ?f (top_part @ BEGIN_MARKER @ x1 @ x2) (ws1 @ ws2) (open_w ?f w))" for w
      unfolding run using emitsD[OF e1234 opened[of w]] b by simp
    then show ?thesis using that[of r2 "x1 @ x2" "ws1 @ ws2"] b ok2 by blast
  next
    case c
    have "write_new_manifest env m top_part bottom_part w =
       (r3, emit ?f (top_part @ BEGIN_MARKER @ x1 @ x2 @ x3) (ws1 @ ws2 @ ws3) (open_w ?f w))" for w
      unfolding run using emitsD[OF e1234 opened[of w]] c by simp
    then show ?thesis using that[of r3 "x1 @ x2 @ x3" "ws1 @ ws2 @ ws3"] c ok3 by blast
  next
    case d
    have 1: "write_new_manifest env m top_part bottom_part w =
       (?re, emit ?f (top_part @ BEGIN_MARKER @ (x1 @ x2 @ x3) @ ?xe) (ws1 @ ws2 @ ws3) (open_w ?f w))" for w
      unfolding run using emitsD[OF e1234 opened[of w]] d by simp
    have 2: "\<exists>mid g. match_bottom bottom_part = Some g \<and> (x1 @ x2 @ x3) @ ?xe = mid @ END_MARKER @ g"
      if "?re = None"
      using that by (cases "match_bottom bottom_part") auto
    have 3: "\<exists>mid. (x1 @ x2 @ x3) @ ?xe = mid @ ?xe" by blast
    show ?thesis
      by (rule that[of ?re "(x1 @ x2 @ x3) @ ?xe" "ws1 @ ws2 @ ws3"]) (use 1 2 3 in auto)
  qed
qed

lemma CreateNewManifest_builds:
  assumes "PrepForChanges env (manifest_dir m) (files w0) = Inr prepared"
    and "prepared (manifest_path m) = Some lines"
    and "partition_lines lines = Inr (top_part, body, bottom_part)"
    and "CheckForNonChromeProjects env (TEST_MANIFEST_TEMPLATE body) = None"
  shows "CreateNewManifest env m w0 =
           write_new_manifest env m top_part bottom_part
             ((log_event (CallPrepForChanges (manifest_dir m)) w0)\<lparr>files := prepared\<rparr>)"
  using assms by (simp add: CreateNewManifest_def Let_def PartitionManifest_def log_event_def)

lemma CreateNewManifest_no_partition:
  assumes "PrepForChanges env (manifest_dir m) (files w0) = Inr prepared"
    and "prepared (manifest_path m) = Some lines"
    and "partition_lines lines = Inl e"
  shows "CreateNewManifest env m w0 =
           (Some e, (log_event (CallPrepForChanges (manifest_dir m)) w0)\<lparr>files := prepared\<rparr>)"
  using assms by (simp add: CreateNewManifest_def Let_def PartitionManifest_def log_event_def)

lemma CreateNewManifest_check_fails:
  assumes "PrepForChanges env (manifest_dir m) (files w0) = Inr prepared"
    and "prepared (manifest_path m) = Some lines"
    and "partition_lines lines = Inr (top_part, body, bottom_part)"
    and "CheckForNonChromeProjects env (TEST_MANIFEST_TEMPLATE body) = Some e"
  shows "CreateNewManifest env m w0 =
           (Some e, (log_event (CallPrepForChanges (manifest_dir m)) w0)\<lparr>files := prepared\<rparr>)"
  using assms by (simp add: CreateNewManifest_def Let_def PartitionManifest_def log_event_def)

section \<open>Lemmas about the converter\<close>

lemma convert_entry_other:
  assumes "snd x \<noteq> p"
  shows "filter (\<lambda>e. snd e = p) (written (convert_entry d bl x st)) = filter (\<lambda>e. snd e = p) (written st)"
    and "filter (is_double_checkout_of p) (warnings (convert_entry d bl x st)) =
         filter (is_double_checkout_of p) (warnings st)"
    and "p \<in> previous_projects (convert_entry d bl x st) \<longleftrightarrow> p \<in> previous_projects st"
  using assms by (auto simp: convert_entry_def Let_def)

lemma warnings_convert_entry:
  "set (warnings st) \<subseteq> set (warnings (convert_entry d bl x st))"
  by (auto simp: convert_entry_def Let_def)

lemma warnings_convert_loop:
  "set (warnings st) \<subseteq> set (warnings (convert_loop d bl xs st))"
proof (induction xs arbitrary: st)
  case Nil
  show ?case by simp
next
  case (Cons x xs)
  show ?case using warnings_convert_entry[of st d bl x] Cons[of "convert_entry d bl x st"] by auto
qed

lemma loop_blacklisted:
  assumes "blacklisted bl p"
  shows "filter (\<lambda>e. snd e = p) (written (convert_loop d bl xs st)) =
         filter (\<lambda>e. snd e = p) (written st)"
proof (induction xs arbitrary: st)
  case Nil
  show ?case by simp
next
  case (Cons x xs)
  have "filter (\<lambda>e. snd e = p) (written (convert_entry d bl x st)) =
        filter (\<lambda>e. snd e = p) (written st)"
    using assms by (cases "snd x = p") (auto simp: convert_entry_def Let_def)
  with Cons[of "convert_entry d bl x st"] show ?case by simp
qed

lemma loop_blacklisted_warns:
  assumes "blacklisted bl p" and "paths_of p xs \<noteq> []"
  shows "Skipping p d \<in> set (warnings (convert_loop d bl xs st))"
  using assms(2)
proof (induction xs arbitrary: st)
  case Nil
  then show ?case by (simp add: paths_of_def)
next
  case (Cons x xs)
  show ?case
  proof (cases "snd x = p")
    case True
    then have "Skipping p d \<in> set (warnings (convert_entry d bl x st))"
      using assms(1) by (simp add: convert_entry_def Let_def)
    then show ?thesis
      using warnings_convert_loop[of "convert_entry d bl x st" d bl xs] by auto
  next
    case False
    with Cons.prems have "paths_of p xs \<noteq> []" by (simp add: paths_of_def)
    from Cons.IH[OF this] show ?thesis by simp
  qed
qed

lemma loop_seen:
  assumes "\<not> blacklisted bl p" and "p \<in> previous_projects st"
  shows "filter (\<lambda>e. snd e = p) (written (convert_loop d bl xs st)) =
           filter (\<lambda>e. snd e = p) (written st) \<and>
         length (filter (is_double_checkout_of p) (warnings (convert_loop d bl xs st))) =
           length (filter (is_double_checkout_of p) (warnings st)) + length (paths_of p xs)"
  using assms(2)
proof (induction xs arbitrary: st)
  case Nil
  show ?case by (simp add: paths_of_def)
next
  case (Cons x xs)
  let ?st = "convert_entry d bl x st"
  show ?case
  proof (cases "snd x = p")
    case True
    with assms(1) Cons.prems have
      "filter (\<lambda>e. snd e = p) (written ?st) = filter (\<lambda>e. snd e = p) (written st)"
      "length (filter (is_double_checkout_of p) (warnings ?st)) =
         Suc (length (filter (is_double_checkout_of p) (warnings st)))"
      "p \<in> previous_projects ?st"
      by (simp_all add: convert_entry_def Let_def)
    with Cons.IH[of ?st] True show ?thesis by (simp add: paths_of_def)
  next
    case False
    with Cons.IH[of ?st] convert_entry_other[OF False, of d bl st] Cons.prems
    show ?thesis by (simp add: paths_of_def)
  qed
qed

lemma loop_fresh:
  assumes "\<not> blacklisted bl p" and "p \<notin> previous_projects st" and "paths_of p xs \<noteq> []"
  shows "filter (\<lambda>e. snd e = p) (written (convert_loop d bl xs st)) =
           filter (\<lambda>e. snd e = p) (written st) @
             [(path_join ''chromium'' (fst (hd (paths_of p xs))), p)] \<and>
         length (filter (is_double_checkout_of p) (warnings (convert_loop d bl xs st))) =
           length (filter (is_double_checkout_of p) (warnings st)) + (length (paths_of p xs) - 1)"
  using assms(2,3)
proof (induction xs arbitrary: st)
  case Nil
  then show ?case by (simp add: paths_of_def)
next
  case (Cons x xs)
  let ?st = "convert_entry d bl x st"
  show ?case
  proof (cases "snd x = p")
    case True
    with assms(1) Cons.prems have
      w: "filter (\<lambda>e. snd e = p) (written ?st) =
         filter (\<lambda>e. snd e = p) (written st) @ [(path_join ''chromium'' (fst x), p)]"
      and d: "filter (is_double_checkout_of p) (warnings ?st) =
         filter (is_double_checkout_of p) (warnings st)"
      and s: "p \<in> previous_projects ?st"
      by (simp_all add: convert_entry_def Let_def)
    from loop_seen[OF assms(1) s, of d xs] w d True show ?thesis
      by (simp add: paths_of_def)
  next
    case False
    with Cons.prems have "paths_of p xs \<noteq> []" "p \<notin> previous_projects ?st"
      using convert_entry_other(3)[OF False, of d bl st] by (simp_all add: paths_of_def)
    from Cons.IH[OF this(2,1)] convert_entry_other[OF False, of d bl st] False
    show ?thesis by (simp add: paths_of_def)
  qed
qed

lemma paths_of_sorted: "paths_of p (sort_key snd ms) = paths_of p ms"
  unfolding paths_of_def by (rule sort_key_stable)

lemma ConvertDepsToManifest_result:
  assumes "GetPathToProjectMappings env d = Inr ms"
  shows "ConvertDepsToManifest env d f t bl w =
           (None, emit f (render t (written (convert d bl ms))) (warnings (convert d bl ms)) w)"
  using assms by (simp add: ConvertDepsToManifest_def Let_def file_write_emit) (simp add: emit_def)

lemma write_new_manifest_success:
  assumes d1: "GetPathToProjectMappings env
                 (path_join (path_join (repo_root m) CHROMIUM_SRC_ROOT) ''.DEPS.git'') = Inr ms1"
    and p: "ParseManifest env (top_part @ bottom_part) = Inr ps"
    and d2: "GetPathToProjectMappings env
                 (path_join (path_join (repo_root m) CHROMIUM_SRC_ROOT) ''tools/cros.DEPS/DEPS'') = Inr ms2"
    and i: "\<not> internal m"
    and b: "match_bottom bottom_part = Some g"
  shows "write_new_manifest env m top_part bottom_part w =
     (None,
      emit (new_manifest_path m)
        (top_part @ BEGIN_MARKER @ EXTERNAL_HEADER @
         EXTERNAL_PROJECT ''chromium/src'' ''chromium/src'' @
         render EXTERNAL_PROJECT
           (written (convert (path_join (path_join (repo_root m) CHROMIUM_SRC_ROOT) ''.DEPS.git'')
              None ms1)) @
         ''\<newline>'' @ CROS_HEADER @
         render EXTERNAL_PROJECT
           (written (convert
              (path_join (path_join (repo_root m) CHROMIUM_SRC_ROOT) ''tools/cros.DEPS/DEPS'')
              (Some (map fst ps)) ms2)) @
         ''\<newline>'' @ END_MARKER @ g)
        (warnings (convert (path_join (path_join (repo_root m) CHROMIUM_SRC_ROOT) ''.DEPS.git'')
           None ms1) @
         warnings (convert
           (path_join (path_join (repo_root m) CHROMIUM_SRC_ROOT) ''tools/cros.DEPS/DEPS'')
           (Some (map fst ps)) ms2))
        (open_w (new_manifest_path m) w))"
  using assms
  by (simp add: write_new_manifest_def write_external_section_def write_cros_section_def
        write_internal_section_def write_end_section_def Let_def and_then_def done_ok_def
        ConvertDepsToManifest_result file_write_emit GetListOfProjects_def
        ParseManifestString_def)


lemma CreateNewManifest_unreadable:
  assumes "PrepForChanges env (manifest_dir m) (files w) = Inr prepared"
    and "prepared (manifest_path m) = None"
  shows "fst (CreateNewManifest env m w) = Some IOError"
  using assms by (simp add: CreateNewManifest_def Let_def log_event_def PartitionManifest_def)

lemma files_emit_open:
  "files (emit f x ws (open_w f w)) = (files w)(f \<mapsto> x)"
  by (simp add: emit_def open_w_def content_def)

lemma trace_emit_open:
  "trace (emit f x ws (open_w f w)) = trace w @ map Warning ws"
  by (simp add: emit_def open_w_def)

lemma emit_open_eq:
  "emit f x ws (open_w f w) = \<lparr>files = (files w)(f \<mapsto> x), trace = trace w @ map Warning ws,
                                cmp_cache = cmp_cache w\<rparr>"
  by (simp add: emit_def open_w_def content_def)

section \<open>Properties of the specification\<close>

lemma example_paths:
  "manifest_path example_manifest = ''/tmp/update-manifest/oldlayout.xml''"
  "manifest_dir example_manifest = ''/tmp/update-manifest''"
  "new_manifest_path example_manifest = ''/tmp/update-manifest/new_update_manifest.xml''"
  by (simp_all add: example_manifest_def Manifest_def dirname_def path_join_def startswith_def)

text \<open>
  C1. Round trip: when the manifest holds a begin marker followed later by an end marker,
  the partitioner returns three parts, and these parts with the two markers (as the pattern
  matches them, without their trailing line feeds) put back between them are the manifest,
  byte for byte.
\<close>

theorem C1_partition_round_trip:
  assumes "files w (manifest_path m) = Some lines"
    and "lines = a @ strip BEGIN_MARKER @ b @ strip END_MARKER @ c"
  shows "\<exists>top_part body bottom_part.
           PartitionManifest m w = Inr (top_part, body, bottom_part) \<and>
           top_part @ strip BEGIN_MARKER @ body @ strip END_MARKER @ bottom_part = lines"
proof -
  from match_markers_complete[OF assms(2)] obtain top_part body bottom_part where
    r: "match_markers (strip BEGIN_MARKER) (strip END_MARKER) lines = Some (top_part, body, bottom_part)"
    by (cases "match_markers (strip BEGIN_MARKER) (strip END_MARKER) lines") auto
  from match_markers_sound[OF r] r assms(1) show ?thesis
    by (simp add: PartitionManifest_def partition_lines_def)
qed

theorem C1_partition_round_trip_witness:
  "files example_world (manifest_path example_manifest) = Some example_lines \<and>
   (\<exists>top_part body bottom_part.
      PartitionManifest example_manifest example_world = Inr (top_part, body, bottom_part) \<and>
      top_part @ strip BEGIN_MARKER @ body @ strip END_MARKER @ bottom_part = example_lines)"
proof -
  have 1: "files example_world (manifest_path example_manifest) = Some example_lines"
    by (simp add: example_paths example_world_def)
  have 2: "example_lines =
      example_top @ strip BEGIN_MARKER @ example_body @ strip END_MARKER @ example_bottom"
    by (simp add: example_lines_def)
  from C1_partition_round_trip[OF 1 2] 1 show ?thesis by simp
qed

lemma occurrences_iff:
  "i \<in> set (occurrences p s) \<longleftrightarrow> (\<exists>t u. s = t @ p @ u \<and> length t = i)"
proof (induction s arbitrary: i)
  case Nil
  show ?case by auto
next
  case (Cons c cs)
  show ?case
  proof
    assume "i \<in> set (occurrences p (c # cs))"
    then consider "i = 0" "prefix p (c # cs)" | j where "i = Suc j" "j \<in> set (occurrences p cs)"
      by (auto split: if_splits)
    then show "\<exists>t u. c # cs = t @ p @ u \<and> length t = i"
    proof cases
      case 1
      then obtain u where "c # cs = p @ u" by (auto simp: prefix_def)
      with 1 show ?thesis by (intro exI[of _ "[]"] exI[of _ u]) auto
    next
      case 2
      with Cons.IH[of j] obtain t u where "cs = t @ p @ u" "length t = j" by blast
      with 2 show ?thesis by (intro exI[of _ "c # t"] exI[of _ u]) auto
    qed
  next
    assume "\<exists>t u. c # cs = t @ p @ u \<and> length t = i"
    then obtain t u where d: "c # cs = t @ p @ u" and l: "length t = i" by blast
    show "i \<in> set (occurrences p (c # cs))"
    proof (cases t)
      case Nil
      with d have "prefix p (c # cs)" by (simp add: prefix_def)
      with Nil l show ?thesis by simp
    next
      case (Cons x t')
      with d l have "cs = t' @ p @ u" "i = Suc (length t')" by auto
      with Cons.IH[of "length t'"] show ?thesis by auto
    qed
  qed
qed

text \<open>
  C7 (amended). When the manifest holds a begin marker followed later by an end marker, be
  there one or several of each, the partitioner returns the text before a begin marker,
  the text strictly between that begin marker and an end marker, and the text after that
  end marker; the begin marker is the last one that has an end marker after it, and the
  end marker is the last one of the manifest after a begin marker. Both \<open>.*\<close> before the
  markers are greedy.
\<close>

theorem C7_partition_last_markers:
  assumes "lines = a @ strip BEGIN_MARKER @ b @ strip END_MARKER @ c"
  shows "\<exists>top_part body bottom_part.
           partition_lines lines = Inr (top_part, body, bottom_part) \<and>
           lines = top_part @ strip BEGIN_MARKER @ body @ strip END_MARKER @ bottom_part \<and>
           (\<forall>a' b' c'. lines = a' @ strip BEGIN_MARKER @ b' @ strip END_MARKER @ c' \<longrightarrow>
              length a' \<le> length top_part \<and>
              length (a' @ strip BEGIN_MARKER @ b') \<le> length (top_part @ strip BEGIN_MARKER @ body))"
proof -
  from match_markers_complete[OF assms] obtain top_part body bottom_part where
    r: "match_markers (strip BEGIN_MARKER) (strip END_MARKER) lines = Some (top_part, body, bottom_part)"
    by (cases "match_markers (strip BEGIN_MARKER) (strip END_MARKER) lines") auto
  have "partition_lines lines = Inr (top_part, body, bottom_part)"
    using r by (simp add: partition_lines_def)
  moreover note match_markers_sound[OF r]
  moreover have "length a' \<le> length top_part \<and>
      length (a' @ strip BEGIN_MARKER @ b') \<le> length (top_part @ strip BEGIN_MARKER @ body)"
    if "lines = a' @ strip BEGIN_MARKER @ b' @ strip END_MARKER @ c'" for a' b' c'
    using match_markers_maximal[OF r that] .
  ultimately show ?thesis by blast
qed

theorem C7_partition_last_markers_witness:
  "\<exists>top_part body bottom_part.
     partition_lines (strip BEGIN_MARKER @ ''1'' @ strip END_MARKER @ ''2'' @
                      strip BEGIN_MARKER @ ''3'' @ strip END_MARKER @ ''4'') =
       Inr (top_part, body, bottom_part) \<and>
     strip BEGIN_MARKER @ ''1'' @ strip END_MARKER @ ''2'' @
       strip BEGIN_MARKER @ ''3'' @ strip END_MARKER @ ''4'' =
       top_part @ strip BEGIN_MARKER @ body @ strip END_MARKER @ bottom_part \<and>
     (\<forall>a' b' c'. strip BEGIN_MARKER @ ''1'' @ strip END_MARKER @ ''2'' @
                   strip BEGIN_MARKER @ ''3'' @ strip END_MARKER @ ''4'' =
                   a' @ strip BEGIN_MARKER @ b' @ strip END_MARKER @ c' \<longrightarrow>
        length a' \<le> length top_part \<and>
        length (a' @ strip BEGIN_MARKER @ b') \<le> length (top_part @ strip BEGIN_MARKER @ body))"
  by (rule C7_partition_last_markers[of _ "[]" "''1''"
        "''2'' @ strip BEGIN_MARKER @ ''3'' @ strip END_MARKER @ ''4''"]) simp

theorem C7_first_occurrence_counterexample:
  "partition_lines (strip BEGIN_MARKER @ ''1'' @ strip END_MARKER @ ''2'' @
                    strip BEGIN_MARKER @ ''3'' @ strip END_MARKER @ ''4'') =
     Inr (strip BEGIN_MARKER @ ''1'' @ strip END_MARKER @ ''2'', ''3'', ''4'') \<and>
   spec_first_partition (strip BEGIN_MARKER) (strip END_MARKER)
     (strip BEGIN_MARKER @ ''1'' @ strip END_MARKER @ ''2'' @
      strip BEGIN_MARKER @ ''3'' @ strip END_MARKER @ ''4'') =
     Some ([], ''1'', ''2'' @ strip BEGIN_MARKER @ ''3'' @ strip END_MARKER @ ''4'')"
  by code_simp

lemma no_markers_no_match:
  assumes "occurrences b s = [] \<or> occurrences e s = [] \<or>
           (\<forall>i \<in> set (occurrences b s). \<forall>j \<in> set (occurrences e s). j < i)"
  shows "match_markers b e s = None"
proof (rule ccontr)
  assume "match_markers b e s \<noteq> None"
  then obtain t m u where "match_markers b e s = Some (t, m, u)" by auto
  from match_markers_sound[OF this] have s: "s = t @ b @ m @ e @ u" .
  have ib: "length t \<in> set (occurrences b s)"
    unfolding occurrences_iff using s by blast
  have "s = (t @ b @ m) @ e @ u" using s by simp
  then have ie: "length (t @ b @ m) \<in> set (occurrences e s)"
    unfolding occurrences_iff by blast
  from assms ib ie have "length (t @ b @ m) < length t" by auto
  then show False by simp
qed

text \<open>
  C8. Partitioner failure: when the begin marker is missing from the manifest, or the end
  marker is missing, or every end marker precedes every begin marker, \<open>_PartitionManifest\<close>
  raises \<open>ManifestException\<close> (markers not found); the builder passes it on before it opens
  the staged file, and \<open>PerformUpdate\<close> logs and raises it again, so the run leaves the files
  as \<open>PrepForChanges\<close> left them.
\<close>

theorem C8_markers_not_found:
  assumes "PrepForChanges env (manifest_dir m) (files w) = Inr prepared"
    and "prepared (manifest_path m) = Some lines"
    and "occurrences (strip BEGIN_MARKER) lines = [] \<or>
         occurrences (strip END_MARKER) lines = [] \<or>
         (\<forall>i \<in> set (occurrences (strip BEGIN_MARKER) lines).
            \<forall>j \<in> set (occurrences (strip END_MARKER) lines). j < i)"
  shows "PartitionManifest m (w\<lparr>files := prepared\<rparr>) =
           Inl (ManifestException ''Chromium projects begin/end markers not found!'') \<and>
         CreateNewManifest env m w =
           (Some (ManifestException ''Chromium projects begin/end markers not found!''),
            \<lparr>files = prepared, trace = trace w @ [CallPrepForChanges (manifest_dir m)],
             cmp_cache = cmp_cache w\<rparr>) \<and>
         PerformUpdate env m w =
           (Some (ManifestException ''Chromium projects begin/end markers not found!''),
            \<lparr>files = prepared,
             trace = trace w @ [CallPrepForChanges (manifest_dir m),
                                Error ''Errors encountered while updating manifest!''],
             cmp_cache = cmp_cache w\<rparr>)"
proof -
  let ?e = "ManifestException ''Chromium projects begin/end markers not found!''"
  have none: "match_markers (strip BEGIN_MARKER) (strip END_MARKER) lines = None"
    using assms(3) by (rule no_markers_no_match)
  then have part: "partition_lines lines = Inl ?e"
    by (simp add: partition_lines_def)
  have 1: "PartitionManifest m (w\<lparr>files := prepared\<rparr>) = Inl ?e"
    using assms(2) part by (simp add: PartitionManifest_def)
  have 2: "CreateNewManifest env m w =
      (Some ?e, \<lparr>files = prepared, trace = trace w @ [CallPrepForChanges (manifest_dir m)],
             cmp_cache = cmp_cache w\<rparr>)"
    using CreateNewManifest_no_partition[OF assms(1,2) part] by (simp add: log_event_def)
  have 3: "PerformUpdate env m w =
      (Some ?e, \<lparr>files = prepared,
         trace = trace w @ [CallPrepForChanges (manifest_dir m),
                            Error ''Errors encountered while updating manifest!''],
             cmp_cache = cmp_cache w\<rparr>)"
    using 2 by (simp add: PerformUpdate_def and_then_def on_exception_def log_event_def)
  from 1 2 3 show ?thesis by simp
qed


theorem C8_markers_not_found_witness:
  "occurrences (strip BEGIN_MARKER) swapped_lines = [81] \<and>
   occurrences (strip END_MARKER) swapped_lines = [11] \<and>
   PartitionManifest example_manifest swapped_world =
     Inl (ManifestException ''Chromium projects begin/end markers not found!'') \<and>
   PerformUpdate example_env example_manifest swapped_world =
     (Some (ManifestException ''Chromium projects begin/end markers not found!''),
      \<lparr>files = files swapped_world,
       trace = [CallPrepForChanges ''/tmp/update-manifest'',
                Error ''Errors encountered while updating manifest!''],
             cmp_cache = []\<rparr>)"
proof -
  have 1: "PrepForChanges example_env (manifest_dir example_manifest) (files swapped_world) =
             Inr (files swapped_world)"
    by (simp add: example_env_def)
  have 2: "files swapped_world (manifest_path example_manifest) = Some swapped_lines"
    by (simp add: swapped_world_def example_paths)
  have b: "occurrences (strip BEGIN_MARKER) swapped_lines = [81]"
    by code_simp
  have e: "occurrences (strip END_MARKER) swapped_lines = [11]"
    by code_simp
  have 3: "\<forall>i \<in> set (occurrences (strip BEGIN_MARKER) swapped_lines).
             \<forall>j \<in> set (occurrences (strip END_MARKER) swapped_lines). j < i"
    by (simp add: b e)
  have 4: "trace swapped_world = []" "cmp_cache swapped_world = []"
    by (simp_all add: swapped_world_def)
  from C8_markers_not_found[OF 1 2 disjI2[OF disjI2[OF 3]]] b e show ?thesis
    by (simp add: example_paths 4)
qed

lemma example_partition:
  "partition_lines example_lines = Inr (example_top, example_body, example_bottom)"
  by code_simp

lemma example_prepared:
  "PrepForChanges example_env (manifest_dir example_manifest) fs = Inr fs"
  by (simp add: example_env_def)

lemma example_live:
  "files example_world (manifest_path example_manifest) = Some example_lines"
  by (simp add: example_world_def example_paths)

lemma no_chromium_path_eq:
  "no_chromium_path (project, attributes) \<longleftrightarrow>
     \<not> startswith (attr_get attributes ''path'' []) ''chromium/''"
  by (simp add: no_chromium_path_def attr_get_def startswith_def split: option.splits)

lemma check_projects_None_iff:
  "check_projects ps = None \<longleftrightarrow> \<not> list_ex no_chromium_path ps"
  by (induction ps rule: check_projects.induct) (simp_all add: no_chromium_path_eq)

lemma check_projects_Some:
  "check_projects ps = Some e \<Longrightarrow>
     \<exists>project. e = ManifestException (''Project '' @ project @ '' was about to be accidentally removed!'')"
  by (induction ps rule: check_projects.induct) (auto split: if_splits)

text \<open>
  C2 (amended). Safety check: given the region to be replaced, wrapped in a minimal manifest
  root, and the projects the parser finds in it, \<open>CheckForNonChromeProjects\<close> raises the
  "about to be accidentally removed" \<open>ManifestException\<close> if and only if some project has no
  \<open>path\<close> attribute or has a \<open>path\<close> attribute that does not start with \<open>chromium/\<close> (the path
  is read with the empty string as its default). When it raises, the builder stops before
  the staged file is opened: the files are as \<open>PrepForChanges\<close> left them.
\<close>

theorem C2_safety_check:
  assumes "PrepForChanges env (manifest_dir m) (files w) = Inr prepared"
    and "prepared (manifest_path m) = Some lines"
    and "partition_lines lines = Inr (top_part, overwritten, bottom_part)"
    and "ParseManifest env (TEST_MANIFEST_TEMPLATE overwritten) = Inr ps"
  shows "((\<exists>project. CheckForNonChromeProjects env (TEST_MANIFEST_TEMPLATE overwritten) =
             Some (ManifestException
                     (''Project '' @ project @ '' was about to be accidentally removed!''))) \<longleftrightarrow>
          list_ex no_chromium_path ps) \<and>
         (CheckForNonChromeProjects env (TEST_MANIFEST_TEMPLATE overwritten) = None \<longleftrightarrow>
          \<not> list_ex no_chromium_path ps) \<and>
         (list_ex no_chromium_path ps \<longrightarrow>
          (\<exists>project. CreateNewManifest env m w =
             (Some (ManifestException
                      (''Project '' @ project @ '' was about to be accidentally removed!'')),
              \<lparr>files = prepared, trace = trace w @ [CallPrepForChanges (manifest_dir m)],
               cmp_cache = cmp_cache w\<rparr>)))"
proof -
  let ?check = "CheckForNonChromeProjects env (TEST_MANIFEST_TEMPLATE overwritten)"
  have c: "?check = check_projects ps"
    using assms(4) by (simp add: CheckForNonChromeProjects_def ParseManifestString_def)
  have 2: "?check = None \<longleftrightarrow> \<not> list_ex no_chromium_path ps"
    unfolding c by (rule check_projects_None_iff)
  have raised: "\<exists>project. ?check =
      Some (ManifestException (''Project '' @ project @ '' was about to be accidentally removed!''))"
    if "list_ex no_chromium_path ps"
  proof -
    from that 2 obtain e where e: "?check = Some e" by auto
    then have "check_projects ps = Some e" using c by simp
    from check_projects_Some[OF this] obtain project where
      "e = ManifestException (''Project '' @ project @ '' was about to be accidentally removed!'')"
      by blast
    with e show ?thesis by blast
  qed
  have 1: "(\<exists>project. ?check =
      Some (ManifestException (''Project '' @ project @ '' was about to be accidentally removed!''))) \<longleftrightarrow>
      list_ex no_chromium_path ps"
    using raised 2 by auto
  have 3: "\<exists>project. CreateNewManifest env m w =
             (Some (ManifestException
                      (''Project '' @ project @ '' was about to be accidentally removed!'')),
              \<lparr>files = prepared, trace = trace w @ [CallPrepForChanges (manifest_dir m)],
               cmp_cache = cmp_cache w\<rparr>)"
    if "list_ex no_chromium_path ps"
  proof -
    from raised[OF that] obtain project where
      e: "?check = Some (ManifestException
            (''Project '' @ project @ '' was about to be accidentally removed!''))" by blast
    from CreateNewManifest_check_fails[OF assms(1,2,3) e] show ?thesis
      by (auto simp: log_event_def)
  qed
  from 1 2 3 show ?thesis by blast
qed

theorem C2_safety_check_witness:
  "list_ex no_chromium_path foreign_projects \<and>
   CheckForNonChromeProjects foreign_env (TEST_MANIFEST_TEMPLATE example_body) \<noteq> None \<and>
   (\<exists>project. CreateNewManifest foreign_env example_manifest example_world =
      (Some (ManifestException
               (''Project '' @ project @ '' was about to be accidentally removed!'')),
       \<lparr>files = files example_world,
        trace = trace example_world @ [CallPrepForChanges (manifest_dir example_manifest)],
        cmp_cache = cmp_cache example_world\<rparr>))"
proof -
  have 1: "PrepForChanges foreign_env (manifest_dir example_manifest) (files example_world) =
             Inr (files example_world)"
    by (simp add: foreign_env_def example_env_def)
  have 4: "ParseManifest foreign_env (TEST_MANIFEST_TEMPLATE example_body) = Inr foreign_projects"
    by (simp add: foreign_env_def)
  have 5: "list_ex no_chromium_path foreign_projects"
    by (simp add: foreign_projects_def no_chromium_path_def startswith_def)
  from C2_safety_check[OF 1 example_live example_partition 4] 5 show ?thesis by simp
qed

theorem C2_missing_path_counterexample:
  "ParseManifest nopath_env (TEST_MANIFEST_TEMPLATE example_body) = Inr nopath_projects \<and>
   \<not> list_ex spec_foreign_path nopath_projects \<and>
   CheckForNonChromeProjects nopath_env (TEST_MANIFEST_TEMPLATE example_body) =
     Some (ManifestException ''Project foo was about to be accidentally removed!'')"
  by (simp add: nopath_env_def nopath_projects_def spec_foreign_path_def
        CheckForNonChromeProjects_def ParseManifestString_def attr_get_def startswith_def)

lemma convert_fresh:
  assumes "\<not> blacklisted bl p" and "paths_of p ms \<noteq> []"
  shows "filter (\<lambda>entry. snd entry = p) (written (convert d bl ms)) =
           [(path_join ''chromium'' (fst (hd (paths_of p (sort_key snd ms)))), p)]"
    and "length (filter (is_double_checkout_of p) (warnings (convert d bl ms))) =
           length (paths_of p ms) - 1"
proof -
  let ?st = "\<lparr>written = [], previous_projects = {}, warnings = []\<rparr>"
  have "p \<notin> previous_projects ?st" by simp
  moreover have "paths_of p (sort_key snd ms) \<noteq> []" using assms(2) by (simp add: paths_of_sorted)
  ultimately have l: "filter (\<lambda>e. snd e = p) (written (convert_loop d bl (sort_key snd ms) ?st)) =
           filter (\<lambda>e. snd e = p) (written ?st) @
             [(path_join ''chromium'' (fst (hd (paths_of p (sort_key snd ms)))), p)] \<and>
         length (filter (is_double_checkout_of p) (warnings (convert_loop d bl (sort_key snd ms) ?st))) =
           length (filter (is_double_checkout_of p) (warnings ?st)) +
           (length (paths_of p (sort_key snd ms)) - 1)"
    by (rule loop_fresh[OF assms(1)])
  from l show "filter (\<lambda>entry. snd entry = p) (written (convert d bl ms)) =
           [(path_join ''chromium'' (fst (hd (paths_of p (sort_key snd ms)))), p)]"
    by (simp add: convert_def)
  from l show "length (filter (is_double_checkout_of p) (warnings (convert d bl ms))) =
           length (paths_of p ms) - 1"
    by (simp add: convert_def paths_of_sorted)
qed

lemma ConvertDepsToManifest_effect:
  assumes "GetPathToProjectMappings env d = Inr ms"
  shows "fst (ConvertDepsToManifest env d f t bl w) = None"
    and "content (snd (ConvertDepsToManifest env d f t bl w)) f =
           content w f @ render t (written (convert d bl ms))"
    and "trace (snd (ConvertDepsToManifest env d f t bl w)) =
           trace w @ map Warning (warnings (convert d bl ms))"
  using ConvertDepsToManifest_result[OF assms, of f t bl w]
  by (simp_all add: trace_emit)

text \<open>
  C3 (amended). Duplicate checkouts: when one or more relative paths of the mapping map to
  a project id that is not blacklisted, the converter returns normally, appends the rendered
  entries to the file and logs its warnings, and among the entries exactly one is for that
  project id: the one of the first such path in the stable project-id sort order. It logs
  one "double checkout" warning for every further path of that project id: exactly one when
  exactly two paths share the id, two when three do.
\<close>

theorem C3_double_checkout:
  assumes "GetPathToProjectMappings env deps_file = Inr mappings"
    and "\<not> blacklisted blacklist p"
    and "paths_of p mappings \<noteq> []"
  shows "fst (ConvertDepsToManifest env deps_file f template blacklist w) = None \<and>
         content (snd (ConvertDepsToManifest env deps_file f template blacklist w)) f =
           content w f @ render template (written (convert deps_file blacklist mappings)) \<and>
         trace (snd (ConvertDepsToManifest env deps_file f template blacklist w)) =
           trace w @ map Warning (warnings (convert deps_file blacklist mappings)) \<and>
         filter (\<lambda>entry. snd entry = p) (written (convert deps_file blacklist mappings)) =
           [(path_join ''chromium'' (fst (hd (paths_of p (sort_key snd mappings)))), p)] \<and>
         length (filter (is_double_checkout_of p)
                   (warnings (convert deps_file blacklist mappings))) =
           length (paths_of p mappings) - 1"
  using ConvertDepsToManifest_effect[OF assms(1)] convert_fresh[OF assms(2,3)]
  by simp

theorem C3_double_checkout_witness:
  "GetPathToProjectMappings example_env ''/repo/chromium/src/.DEPS.git'' = Inr example_mappings \<and>
   paths_of ''chromium/a'' example_mappings =
     [(''src/a'', ''chromium/a''), (''src/a2'', ''chromium/a'')] \<and>
   fst (ConvertDepsToManifest example_env ''/repo/chromium/src/.DEPS.git'' ''new.xml''
          EXTERNAL_PROJECT None example_world) = None \<and>
   filter (\<lambda>entry. snd entry = ''chromium/a'')
     (written (convert ''/repo/chromium/src/.DEPS.git'' None example_mappings)) =
     [(''chromium/src/a'', ''chromium/a'')] \<and>
   length (filter (is_double_checkout_of ''chromium/a'')
             (warnings (convert ''/repo/chromium/src/.DEPS.git'' None example_mappings))) = 1"
proof -
  have 1: "GetPathToProjectMappings example_env ''/repo/chromium/src/.DEPS.git'' =
             Inr example_mappings"
    by (simp add: example_env_def)
  have 2: "\<not> blacklisted None ''chromium/a''"
    by (simp add: blacklisted_def)
  have 3: "paths_of ''chromium/a'' example_mappings =
             [(''src/a'', ''chromium/a''), (''src/a2'', ''chromium/a'')]"
    by (simp add: paths_of_def example_mappings_def)
  then have 4: "paths_of ''chromium/a'' example_mappings \<noteq> []" by simp
  have 5: "path_join ''chromium''
             (fst (hd (paths_of ''chromium/a'' (sort_key snd example_mappings)))) =
           ''chromium/src/a''"
    by (simp add: paths_of_sorted 3 path_join_def startswith_def)
  from C3_double_checkout[OF 1 2 4, of "''new.xml''" EXTERNAL_PROJECT example_world] 1 3 5
  show ?thesis by simp
qed

theorem C3_three_paths_counterexample:
  "paths_of ''p'' triple_mappings = [(''src/a'', ''p''), (''src/b'', ''p''), (''src/c'', ''p'')] \<and>
   written (convert ''.DEPS.git'' None triple_mappings) = [(''chromium/src/a'', ''p'')] \<and>
   warnings (convert ''.DEPS.git'' None triple_mappings) =
     [DoubleCheckout ''p'' ''chromium/src/b'', DoubleCheckout ''p'' ''chromium/src/c'']"
  by code_simp

text \<open>
  C4. Blacklist filtering: when the blacklist contains project id \<open>p\<close> and the mapping
  contains \<open>p\<close>, the converter returns normally, no entry it writes has the project name
  \<open>p\<close>, a "skipping" warning is logged for \<open>p\<close>, and every project id of the mapping that is
  not blacklisted still gets its entry.
\<close>

theorem C4_blacklist_filtering:
  assumes "GetPathToProjectMappings env deps_file = Inr mappings"
    and "p \<in> set bl"
    and "paths_of p mappings \<noteq> []"
  shows "fst (ConvertDepsToManifest env deps_file f template (Some bl) w) = None \<and>
         content (snd (ConvertDepsToManifest env deps_file f template (Some bl) w)) f =
           content w f @ render template (written (convert deps_file (Some bl) mappings)) \<and>
         trace (snd (ConvertDepsToManifest env deps_file f template (Some bl) w)) =
           trace w @ map Warning (warnings (convert deps_file (Some bl) mappings)) \<and>
         (\<forall>entry \<in> set (written (convert deps_file (Some bl) mappings)). snd entry \<noteq> p) \<and>
         Skipping p deps_file \<in> set (warnings (convert deps_file (Some bl) mappings)) \<and>
         (\<forall>q. paths_of q mappings \<noteq> [] \<and> q \<notin> set bl \<longrightarrow>
              (\<exists>path. (path, q) \<in> set (written (convert deps_file (Some bl) mappings))))"
proof -
  let ?st = "\<lparr>written = [], previous_projects = {}, warnings = []\<rparr>"
  have b: "blacklisted (Some bl) p" using assms(2) by (auto simp: blacklisted_def)
  have "filter (\<lambda>e. snd e = p) (written (convert deps_file (Some bl) mappings)) = []"
    using loop_blacklisted[OF b, of deps_file "sort_key snd mappings" ?st]
    by (simp add: convert_def)
  then have 1: "\<forall>entry \<in> set (written (convert deps_file (Some bl) mappings)). snd entry \<noteq> p"
    by (simp add: filter_empty_conv)
  have 2: "Skipping p deps_file \<in> set (warnings (convert deps_file (Some bl) mappings))"
    using loop_blacklisted_warns[OF b, of "sort_key snd mappings" deps_file ?st] assms(3)
    by (simp add: convert_def paths_of_sorted)
  have 3: "\<exists>path. (path, q) \<in> set (written (convert deps_file (Some bl) mappings))"
    if "paths_of q mappings \<noteq> []" "q \<notin> set bl" for q
  proof -
    from that(2) have "\<not> blacklisted (Some bl) q" by (simp add: blacklisted_def)
    from convert_fresh(1)[OF this that(1), of deps_file]
    have "(path_join ''chromium'' (fst (hd (paths_of q (sort_key snd mappings)))), q)
            \<in> set (filter (\<lambda>entry. snd entry = q) (written (convert deps_file (Some bl) mappings)))"
      by simp
    then show ?thesis by auto
  qed
  from ConvertDepsToManifest_effect[OF assms(1)] 1 2 3 show ?thesis by simp
qed

theorem C4_blacklist_filtering_witness:
  "GetPathToProjectMappings example_env ''/repo/chromium/src/.DEPS.git'' = Inr example_mappings \<and>
   paths_of ''chromium/a'' example_mappings \<noteq> [] \<and>
   fst (ConvertDepsToManifest example_env ''/repo/chromium/src/.DEPS.git'' ''new.xml'' EXTERNAL_PROJECT
          (Some [''chromium/a'']) example_world) = None \<and>
   ''chromium/a'' \<notin> snd ` set (written (convert ''/repo/chromium/src/.DEPS.git'' (Some [''chromium/a'']) example_mappings)) \<and>
   Skipping ''chromium/a'' ''/repo/chromium/src/.DEPS.git''
     \<in> set (warnings (convert ''/repo/chromium/src/.DEPS.git'' (Some [''chromium/a'']) example_mappings)) \<and>
   (\<exists>path. (path, ''chromium/b'')
      \<in> set (written (convert ''/repo/chromium/src/.DEPS.git'' (Some [''chromium/a'']) example_mappings)))"
proof -
  have 1: "GetPathToProjectMappings example_env ''/repo/chromium/src/.DEPS.git'' = Inr example_mappings"
    by (simp add: example_env_def)
  have 2: "''chromium/a'' \<in> set [''chromium/a'']" by simp
  have 3: "paths_of ''chromium/a'' example_mappings \<noteq> []"
    by (simp add: paths_of_def example_mappings_def)
  have 4: "paths_of ''chromium/b'' example_mappings \<noteq> [] \<and> ''chromium/b'' \<notin> set [''chromium/a'']"
    by (simp add: paths_of_def example_mappings_def)
  from C4_blacklist_filtering[OF 1 2 3, of "''new.xml''" EXTERNAL_PROJECT example_world] 1 3 4
  show ?thesis by (auto simp del: paths_of_def)
qed

lemma example_check:
  "CheckForNonChromeProjects example_env (TEST_MANIFEST_TEMPLATE body) = None"
  by (simp add: CheckForNonChromeProjects_def ParseManifestString_def example_env_def
        TEST_MANIFEST_TEMPLATE_def attr_get_def startswith_def)

lemma example_parse:
  "ParseManifest example_env (example_top @ bottom) =
     Inr [(''chromiumos/foo'', [(''name'', ''chromiumos/foo''), (''path'', ''src/foo'')])]"
  by (simp add: example_env_def example_top_def)

lemma example_deps:
  "GetPathToProjectMappings example_env ''/repo/chromium/src/.DEPS.git'' = Inr example_mappings"
  by (simp add: example_env_def)

lemma example_cros_deps:
  "GetPathToProjectMappings example_env ''/repo/chromium/src/tools/cros.DEPS/DEPS'' =
     Inr example_cros_mappings"
  by (simp add: example_env_def)

lemma example_deps_files:
  "path_join (path_join (repo_root example_manifest) CHROMIUM_SRC_ROOT) ''.DEPS.git'' =
     ''/repo/chromium/src/.DEPS.git''"
  "path_join (path_join (repo_root example_manifest) CHROMIUM_SRC_ROOT) ''tools/cros.DEPS/DEPS'' =
     ''/repo/chromium/src/tools/cros.DEPS/DEPS''"
  "\<not> internal example_manifest"
  by (simp_all add: example_manifest_def Manifest_def CHROMIUM_SRC_ROOT_def CHROMIUM_ROOT_def
        path_join_def startswith_def)

lemma example_match_bottom: "match_bottom example_bottom = Some example_suffix"
  by code_simp

lemma example_run:
  "CreateNewManifest example_env example_manifest example_world =
     (None,
      \<lparr>files = (files example_world)(new_manifest_path example_manifest \<mapsto> example_staged),
       trace = CallPrepForChanges (manifest_dir example_manifest) #
         map Warning
           (warnings (convert ''/repo/chromium/src/.DEPS.git'' None example_mappings) @
            warnings (convert ''/repo/chromium/src/tools/cros.DEPS/DEPS''
              (Some [''chromiumos/foo'']) example_cros_mappings)),
       cmp_cache = []\<rparr>)"
proof -
  have t: "trace example_world = []" "cmp_cache example_world = []"
    by (simp_all add: example_world_def)
  note run = write_new_manifest_success[of example_env example_manifest,
      unfolded example_deps_files, OF example_deps example_parse example_cros_deps
      example_deps_files(3) example_match_bottom]
  show ?thesis
    unfolding CreateNewManifest_builds[OF example_prepared example_live example_partition
        example_check] run
    by (simp add: emit_open_eq log_event_def example_staged_def t)
qed

text \<open>
  C5. Frame preservation: when the markers partition the manifest into prefix, body and
  suffix and the builder returns normally, the staged document is the prefix, unchanged,
  then the begin marker, the regenerated region and the end marker, then the suffix from
  the start of its first line that holds a character other than whitespace: what is
  dropped in front of it is whitespace only and ends with a line feed. Every other file is
  as \<open>PrepForChanges\<close> left it.
\<close>

theorem C5_frame_preservation:
  assumes "PrepForChanges env (manifest_dir m) (files w) = Inr prepared"
    and "prepared (manifest_path m) = Some lines"
    and "partition_lines lines = Inr (top_part, body, bottom_part)"
    and "CreateNewManifest env m w = (None, w')"
  shows "\<exists>middle blank suffix.
           files w' = prepared(new_manifest_path m \<mapsto>
                        top_part @ BEGIN_MARKER @ middle @ END_MARKER @ suffix) \<and>
           bottom_part = blank @ suffix \<and>
           (\<forall>c \<in> set blank. is_space c) \<and>
           (blank = [] \<or> last blank = newline) \<and>
           (\<exists>c \<in> set (takeWhile (\<lambda>c. c \<noteq> newline) suffix). \<not> is_space c)"
proof -
  let ?f = "new_manifest_path m"
  let ?wp = "(log_event (CallPrepForChanges (manifest_dir m)) w)\<lparr>files := prepared\<rparr>"
  have check: "CheckForNonChromeProjects env (TEST_MANIFEST_TEMPLATE body) = None"
  proof (cases "CheckForNonChromeProjects env (TEST_MANIFEST_TEMPLATE body)")
    case None
    then show ?thesis .
  next
    case (Some e)
    from CreateNewManifest_check_fails[OF assms(1,2,3) Some] assms(4) show ?thesis by simp
  qed
  obtain r x ws where
    run: "\<And>w. write_new_manifest env m top_part bottom_part w =
            (r, emit ?f (top_part @ BEGIN_MARKER @ x) ws (open_w ?f w))"
    and ok: "r = None \<Longrightarrow> \<exists>mid g. match_bottom bottom_part = Some g \<and> x = mid @ END_MARKER @ g"
    by (rule write_new_manifest_emits[where env=env and m=m and top_part=top_part
          and bottom_part=bottom_part]) blast
  from CreateNewManifest_builds[OF assms(1,2,3) check] run[of ?wp] assms(4)
  have r: "r = None" and w': "w' = emit ?f (top_part @ BEGIN_MARKER @ x) ws (open_w ?f ?wp)"
    by simp_all
  from ok[OF r] obtain mid g where g: "match_bottom bottom_part = Some g"
    and x: "x = mid @ END_MARKER @ g" by blast
  from match_bottom_Some[OF g] obtain blank where
    b: "bottom_part = blank @ g" "\<forall>c \<in> set blank. is_space c" "blank = [] \<or> last blank = newline"
       "\<exists>c \<in> set (takeWhile (\<lambda>c. c \<noteq> newline) g). \<not> is_space c"
    by blast
  have "files w' = prepared(?f \<mapsto> top_part @ BEGIN_MARKER @ mid @ END_MARKER @ g)"
    unfolding w' x by (simp add: files_emit_open)
  with b show ?thesis by blast
qed

theorem C5_frame_preservation_witness:
  "partition_lines example_lines = Inr (example_top, example_body, example_bottom) \<and>
   fst (CreateNewManifest example_env example_manifest example_world) = None \<and>
   (\<exists>middle blank suffix.
      files (snd (CreateNewManifest example_env example_manifest example_world)) =
        (files example_world)(new_manifest_path example_manifest \<mapsto>
           example_top @ BEGIN_MARKER @ middle @ END_MARKER @ suffix) \<and>
      example_bottom = blank @ suffix \<and>
      (\<forall>c \<in> set blank. is_space c) \<and>
      (blank = [] \<or> last blank = newline) \<and>
      (\<exists>c \<in> set (takeWhile (\<lambda>c. c \<noteq> newline) suffix). \<not> is_space c))"
proof -
  let ?r = "CreateNewManifest example_env example_manifest example_world"
  have 1: "?r = (None, snd ?r)" by (simp add: example_run)
  have 2: "fst ?r = None" by (simp add: example_run)
  from C5_frame_preservation[OF example_prepared example_live example_partition 1]
    example_partition 2
  show ?thesis by simp
qed

lemma blank_suffix_partition:
  "partition_lines blank_suffix_lines =
     Inr (''<manifest></manifest>\<newline>'', ''\<newline>\<newline>'', ''\<newline>\<newline>'')"
  by code_simp

lemma blank_suffix_parse:
  "\<exists>ps. ParseManifest example_env (''<manifest></manifest>\<newline>'' @ ''\<newline>\<newline>'') = Inr ps"
  by (simp add: example_env_def)

text \<open>
  C10. Blank suffix: when the text after the end marker is empty or whitespace only, the
  pattern that strips the leading blank lines has no match. If the builder gets that far
  (the safety check passes, the parser accepts the text outside the markers and the
  dependency files are read), it raises \<open>AttributeError\<close> after it has written the prefix,
  the regenerated region and the end marker to the staged file: the staged file is left
  without any suffix.
\<close>

theorem C10_blank_suffix_crash:
  assumes "PrepForChanges env (manifest_dir m) (files w) = Inr prepared"
    and "prepared (manifest_path m) = Some lines"
    and "partition_lines lines = Inr (top_part, body, bottom_part)"
    and "CheckForNonChromeProjects env (TEST_MANIFEST_TEMPLATE body) = None"
    and "\<forall>d. \<exists>ms. GetPathToProjectMappings env d = Inr ms"
    and "\<exists>ps. ParseManifest env (top_part @ bottom_part) = Inr ps"
    and "\<forall>c \<in> set bottom_part. is_space c"
  shows "match_bottom bottom_part = None \<and>
         (\<exists>middle ws. CreateNewManifest env m w =
            (Some AttributeError,
             \<lparr>files = prepared(new_manifest_path m \<mapsto>
                          top_part @ BEGIN_MARKER @ middle @ END_MARKER),
              trace = trace w @ CallPrepForChanges (manifest_dir m) # map Warning ws,
              cmp_cache = cmp_cache w\<rparr>))"
proof -
  let ?f = "new_manifest_path m"
  let ?wp = "(log_event (CallPrepForChanges (manifest_dir m)) w)\<lparr>files := prepared\<rparr>"
  have none: "match_bottom bottom_part = None"
    using assms(7) by (simp only: match_bottom_None_iff)
  obtain r x ws where
    run: "\<And>w. write_new_manifest env m top_part bottom_part w =
            (r, emit ?f (top_part @ BEGIN_MARKER @ x) ws (open_w ?f w))"
    and all: "(\<forall>d. \<exists>ms. GetPathToProjectMappings env d = Inr ms) \<Longrightarrow>
         (\<exists>ps. ParseManifest env (top_part @ bottom_part) = Inr ps) \<Longrightarrow>
         r = (case match_bottom bottom_part of None \<Rightarrow> Some AttributeError | Some g \<Rightarrow> None) \<and>
         (\<exists>mid. x = mid @ END_MARKER @ (case match_bottom bottom_part of None \<Rightarrow> [] | Some g \<Rightarrow> g))"
    by (rule write_new_manifest_emits[where env=env and m=m and top_part=top_part
          and bottom_part=bottom_part]) blast
  from all[OF assms(5,6)] none obtain mid where r: "r = Some AttributeError"
    and x: "x = mid @ END_MARKER" by auto
  have "CreateNewManifest env m w =
          (Some AttributeError,
           \<lparr>files = prepared(?f \<mapsto> top_part @ BEGIN_MARKER @ mid @ END_MARKER),
            trace = trace w @ CallPrepForChanges (manifest_dir m) # map Warning ws,
              cmp_cache = cmp_cache w\<rparr>)"
    unfolding CreateNewManifest_builds[OF assms(1,2,3,4)] run r x
    by (simp add: emit_open_eq log_event_def)
  with none show ?thesis by blast
qed

theorem C10_blank_suffix_crash_witness:
  "partition_lines blank_suffix_lines =
     Inr (''<manifest></manifest>\<newline>'', ''\<newline>\<newline>'', ''\<newline>\<newline>'') \<and>
   match_bottom ''\<newline>\<newline>'' = None \<and>
   (\<exists>middle ws. CreateNewManifest example_env example_manifest blank_suffix_world =
      (Some AttributeError,
       \<lparr>files = (files blank_suffix_world)(new_manifest_path example_manifest \<mapsto>
                    ''<manifest></manifest>\<newline>'' @ BEGIN_MARKER @ middle @ END_MARKER),
        trace = trace blank_suffix_world @
                CallPrepForChanges (manifest_dir example_manifest) # map Warning ws,
        cmp_cache = cmp_cache blank_suffix_world\<rparr>))"
proof -
  have live: "files blank_suffix_world (manifest_path example_manifest) = Some blank_suffix_lines"
    by (simp add: blank_suffix_world_def example_paths)
  have deps: "\<forall>d. \<exists>ms. GetPathToProjectMappings example_env d = Inr ms"
    by (simp add: example_env_def)
  have blank: "\<forall>c \<in> set ''\<newline>\<newline>''. is_space c"
    by (simp add: is_space_def)
  from C10_blank_suffix_crash[OF example_prepared live blank_suffix_partition example_check
      deps blank_suffix_parse blank] blank_suffix_partition
  show ?thesis by simp
qed

section \<open>Lemmas about iteration order and about the comparison\<close>

lemma sort_key_same_items:
  assumes "set xs = set ys" and "distinct (map f xs)" and "distinct (map f ys)"
  shows "sort_key f xs = sort_key f ys"
proof -
  have inj: "inj_on f (set xs)" and dx: "distinct xs"
    using assms(2) by (simp_all add: distinct_map)
  have dy: "distinct ys" using assms(3) by (simp add: distinct_map)
  have "map f (sort_key f xs) = map f (sort_key f ys)"
  proof (rule sorted_distinct_set_unique)
    show "sorted (map f (sort_key f xs))" "sorted (map f (sort_key f ys))" by simp_all
    show "distinct (map f (sort_key f xs))"
      using inj dx by (simp add: distinct_map)
    show "distinct (map f (sort_key f ys))"
      using inj dy assms(1) by (simp add: distinct_map)
    show "set (map f (sort_key f xs)) = set (map f (sort_key f ys))"
      using assms(1) by simp
  qed
  moreover have "inj_on f (set (sort_key f xs) \<union> set (sort_key f ys))"
    using inj assms(1) by simp
  ultimately show ?thesis by (simp add: inj_on_map_eq_map)
qed

lemma same_mappings_convert:
  assumes "same_mappings (Inr ms1) (Inr ms2)"
  shows "convert d bl ms1 = convert d bl ms2"
proof (cases "ms1 = ms2")
  case True
  then show ?thesis by simp
next
  case False
  with assms have s: "set ms1 = set ms2" and d1: "distinct (map snd ms1)"
    and k2: "distinct (map fst ms2)"
    by (simp_all add: same_mappings_def)
  from k2 have "distinct ms2" by (simp add: distinct_map)
  moreover from d1 have "inj_on snd (set ms1)" by (simp add: distinct_map)
  ultimately have "distinct (map snd ms2)" using s by (simp add: distinct_map)
  with s d1 have "sort_key snd ms1 = sort_key snd ms2" by (rule sort_key_same_items)
  then show ?thesis by (simp add: convert_def)
qed

lemma same_mappings_ConvertDepsToManifest:
  assumes "same_mappings (GetPathToProjectMappings env1 d) (GetPathToProjectMappings env2 d)"
  shows "ConvertDepsToManifest env2 d f t bl w = ConvertDepsToManifest env1 d f t bl w"
proof (cases "GetPathToProjectMappings env1 d")
  case (Inl e)
  with assms have "GetPathToProjectMappings env2 d = Inl e"
    by (auto simp: same_mappings_def split: sum.splits)
  with Inl show ?thesis by (simp add: ConvertDepsToManifest_def)
next
  case (Inr ms1)
  with assms obtain ms2 where 2: "GetPathToProjectMappings env2 d = Inr ms2"
    by (cases "GetPathToProjectMappings env2 d") (auto simp: same_mappings_def)
  from assms Inr 2 have "convert d bl ms1 = convert d bl ms2"
    by (intro same_mappings_convert) simp
  with Inr 2 show ?thesis by (simp add: ConvertDepsToManifest_def)
qed

lemma same_mappings_CreateNewManifest:
  assumes "env2 = env1\<lparr>GetPathToProjectMappings := deps2\<rparr>"
    and "\<And>d. same_mappings (GetPathToProjectMappings env1 d) (deps2 d)"
  shows "CreateNewManifest env2 m w = CreateNewManifest env1 m w"
proof -
  have c: "ConvertDepsToManifest env2 d f t bl w' = ConvertDepsToManifest env1 d f t bl w'"
    for d f t bl w'
    by (rule same_mappings_ConvertDepsToManifest) (simp add: assms)
  have p: "ParseManifestString env2 = ParseManifestString env1"
    by (simp add: fun_eq_iff ParseManifestString_def assms(1))
  have 1: "write_external_section env2 m = write_external_section env1 m"
    by (simp add: fun_eq_iff write_external_section_def c)
  have 2: "write_cros_section env2 m = write_cros_section env1 m"
    by (simp add: fun_eq_iff write_cros_section_def c GetListOfProjects_def p Let_def
          cong: sum.case_cong)
  have 3: "write_internal_section env2 m = write_internal_section env1 m"
    by (simp add: fun_eq_iff write_internal_section_def c)
  have 4: "write_new_manifest env2 m = write_new_manifest env1 m"
    by (simp add: fun_eq_iff write_new_manifest_def 1 2 3)
  have 5: "CheckForNonChromeProjects env2 = CheckForNonChromeProjects env1"
    by (simp add: fun_eq_iff CheckForNonChromeProjects_def p)
  have 6: "PrepForChanges env2 = PrepForChanges env1"
    by (simp add: assms(1))
  show ?thesis
    by (simp add: CreateNewManifest_def 4 5 6 Let_def
          cong: sum.case_cong option.case_cong prod.case_cong)
qed

lemma builder_frame:
  assumes "PrepForChanges env (manifest_dir m) (files w1) = Inr prepared1"
    and "PrepForChanges env (manifest_dir m) (files w2) = Inr prepared2"
    and "prepared1 (manifest_path m) = prepared2 (manifest_path m)"
  shows "fst (CreateNewManifest env m w1) = fst (CreateNewManifest env m w2) \<and>
         (fst (CreateNewManifest env m w1) = None \<longrightarrow>
          files (snd (CreateNewManifest env m w1)) (new_manifest_path m) =
          files (snd (CreateNewManifest env m w2)) (new_manifest_path m))"
proof (cases "prepared1 (manifest_path m)")
  case None
  with assms(3) have "prepared2 (manifest_path m) = None" by simp
  from CreateNewManifest_unreadable[OF assms(1) None]
    CreateNewManifest_unreadable[OF assms(2) this]
  show ?thesis by simp
next
  case (Some lines)
  with assms(3) have live2: "prepared2 (manifest_path m) = Some lines" by simp
  show ?thesis
  proof (cases "partition_lines lines")
    case (Inl e)
    from CreateNewManifest_no_partition[OF assms(1) Some Inl]
      CreateNewManifest_no_partition[OF assms(2) live2 Inl]
    show ?thesis by simp
  next
    case (Inr parts)
    obtain top_part body bottom_part where p: "parts = (top_part, body, bottom_part)"
      by (cases parts)
    note part = Inr[unfolded p]
    show ?thesis
    proof (cases "CheckForNonChromeProjects env (TEST_MANIFEST_TEMPLATE body)")
      case (Some e)
      from CreateNewManifest_check_fails[OF assms(1) \<open>prepared1 (manifest_path m) = Some lines\<close>
          part Some]
        CreateNewManifest_check_fails[OF assms(2) live2 part Some]
      show ?thesis by simp
    next
      case None
      let ?f = "new_manifest_path m"
      obtain r x ws where
        run: "\<And>w. write_new_manifest env m top_part bottom_part w =
                (r, emit ?f (top_part @ BEGIN_MARKER @ x) ws (open_w ?f w))"
        by (rule write_new_manifest_emits[where env=env and m=m and top_part=top_part
              and bottom_part=bottom_part]) blast
      show ?thesis
        unfolding CreateNewManifest_builds[OF assms(1) \<open>prepared1 (manifest_path m) = Some lines\<close>
            part None]
          CreateNewManifest_builds[OF assms(2) live2 part None] run
        by (simp add: files_emit_open)
    qed
  qed
qed

lemma CreateNewManifest_succeeds:
  assumes "PrepForChanges env (manifest_dir m) (files w) = Inr prepared"
    and "prepared (manifest_path m) = Some lines"
    and "partition_lines lines = Inr (top_part, body, bottom_part)"
    and "CheckForNonChromeProjects env (TEST_MANIFEST_TEMPLATE body) = None"
    and "\<forall>d. \<exists>ms. GetPathToProjectMappings env d = Inr ms"
    and "\<exists>ps. ParseManifest env (top_part @ bottom_part) = Inr ps"
    and "match_bottom bottom_part = Some g"
  shows "fst (CreateNewManifest env m w) = None"
proof -
  let ?f = "new_manifest_path m"
  obtain r x ws where
    run: "\<And>w. write_new_manifest env m top_part bottom_part w =
            (r, emit ?f (top_part @ BEGIN_MARKER @ x) ws (open_w ?f w))"
    and all: "(\<forall>d. \<exists>ms. GetPathToProjectMappings env d = Inr ms) \<Longrightarrow>
         (\<exists>ps. ParseManifest env (top_part @ bottom_part) = Inr ps) \<Longrightarrow>
         r = (case match_bottom bottom_part of None \<Rightarrow> Some AttributeError | Some g \<Rightarrow> None) \<and>
         (\<exists>mid. x = mid @ END_MARKER @ (case match_bottom bottom_part of None \<Rightarrow> [] | Some g \<Rightarrow> g))"
    by (rule write_new_manifest_emits[where env=env and m=m and top_part=top_part
          and bottom_part=bottom_part]) blast
  from all[OF assms(5,6)] assms(7) have "r = None" by simp
  then show ?thesis
    unfolding CreateNewManifest_builds[OF assms(1,2,3,4)] run by simp
qed



text \<open>When \<open>os.makedirs\<close> raises, the trial checkout is not started.\<close>

lemma TestNewManifest_makedirs_raises:
  assumes "test_dir = path_join (testroot m) (if internal m then ''internal'' else ''external'')"
    and "\<not> isdir env w test_dir"
    and "makedirs env test_dir (files w) = Some e"
  shows "TestNewManifest env m w = (Some e, log_event (CallMakedirs test_dir) w)"
  using assms by (simp add: TestNewManifest_def make_test_dir_def and_then_def)

lemma TestNewManifest_regular_file_in_the_way:
  assumes "test_dir = path_join (testroot m) (if internal m then ''internal'' else ''external'')"
    and "files w test_dir = Some c"
    and "makedirs env test_dir (files w) = Some OSError"
  shows "TestNewManifest env m w = (Some OSError, log_event (CallMakedirs test_dir) w)"
  using assms
  by (simp add: TestNewManifest_def make_test_dir_def and_then_def isdir_def os_stat_def)

lemma littered_live:
  "files littered_world (manifest_path example_manifest) = Some example_lines"
  by (simp add: littered_world_def example_paths)

lemma reordered_facts:
  "PrepForChanges reordered_env (manifest_dir example_manifest) fs = Inr fs"
  "CheckForNonChromeProjects reordered_env (TEST_MANIFEST_TEMPLATE body) = None"
  "ParseManifest reordered_env (example_top @ bottom) =
     Inr [(''chromiumos/foo'', [(''name'', ''chromiumos/foo''), (''path'', ''src/foo'')])]"
  "GetPathToProjectMappings reordered_env ''/repo/chromium/src/.DEPS.git'' = Inr reordered_mappings"
  "GetPathToProjectMappings reordered_env ''/repo/chromium/src/tools/cros.DEPS/DEPS'' =
     Inr example_cros_mappings"
  by (simp_all add: reordered_env_def reordered_deps_def example_env_def example_top_def
        CheckForNonChromeProjects_def ParseManifestString_def TEST_MANIFEST_TEMPLATE_def
        attr_get_def startswith_def)

lemma reordered_run:
  "files (snd (CreateNewManifest reordered_env example_manifest example_world))
     (new_manifest_path example_manifest) = Some reordered_staged"
proof -
  note run = write_new_manifest_success[of reordered_env example_manifest,
      unfolded example_deps_files, OF reordered_facts(4) reordered_facts(3) reordered_facts(5)
      example_deps_files(3) example_match_bottom]
  show ?thesis
    unfolding CreateNewManifest_builds[OF reordered_facts(1) example_live example_partition
        reordered_facts(2)] run
    by (simp add: files_emit_open reordered_staged_def)
qed

lemma staged_differ: "example_staged \<noteq> reordered_staged"
  by code_simp

lemma distinct_facts:
  "PrepForChanges distinct_env (manifest_dir example_manifest) fs = Inr fs"
  "CheckForNonChromeProjects distinct_env (TEST_MANIFEST_TEMPLATE body) = None"
  "\<exists>ps. ParseManifest distinct_env (example_top @ bottom) = Inr ps"
  "\<forall>d. \<exists>ms. GetPathToProjectMappings distinct_env d = Inr ms"
  by (simp_all add: distinct_env_def distinct_deps_def example_env_def example_top_def
        CheckForNonChromeProjects_def ParseManifestString_def TEST_MANIFEST_TEMPLATE_def
        attr_get_def startswith_def)

lemma distinct_same_mappings:
  "same_mappings (GetPathToProjectMappings distinct_env d) (distinct_reordered_deps d)"
  by (auto simp: same_mappings_def distinct_env_def distinct_deps_def distinct_reordered_deps_def
        distinct_mappings_def distinct_reordered_def)

text \<open>
  C9 (amended). Determinism: two runs of the builder that read the same bytes of the live
  manifest, with the same parser and manifest object and with the same mappings, end in
  the same way and, when they return normally, stage the same document byte for byte,
  whatever else differs in the worlds they start from (a staged file left by an earlier
  run, other files, the log). The mappings are the same when the dictionaries are iterated
  in the same order, also when distinct paths share a project id, or when they are one
  dictionary in any two iteration orders and no two of its paths share a project id. When
  distinct paths share a project id the entry written is the one of the path that comes
  first in the iteration order, which the sort by project id does not fix.
\<close>

theorem C9_determinism:
  assumes "env2 = env1\<lparr>GetPathToProjectMappings := deps2\<rparr>"
    and "\<forall>d. same_mappings (GetPathToProjectMappings env1 d) (deps2 d)"
    and "PrepForChanges env1 (manifest_dir m) (files w1) = Inr prepared1"
    and "PrepForChanges env1 (manifest_dir m) (files w2) = Inr prepared2"
    and "prepared1 (manifest_path m) = prepared2 (manifest_path m)"
  shows "fst (CreateNewManifest env1 m w1) = fst (CreateNewManifest env2 m w2) \<and>
         (fst (CreateNewManifest env1 m w1) = None \<longrightarrow>
          files (snd (CreateNewManifest env1 m w1)) (new_manifest_path m) =
          files (snd (CreateNewManifest env2 m w2)) (new_manifest_path m))"
proof -
  have "CreateNewManifest env2 m w2 = CreateNewManifest env1 m w2"
  proof (rule same_mappings_CreateNewManifest)
    show "env2 = env1\<lparr>GetPathToProjectMappings := deps2\<rparr>" by (rule assms(1))
    show "same_mappings (GetPathToProjectMappings env1 d) (deps2 d)" for d
      using assms(2) by blast
  qed
  with builder_frame[OF assms(3,4,5)] show ?thesis by simp
qed

theorem C9_determinism_witness:
  "distinct_mappings \<noteq> distinct_reordered \<and>
   same_mappings (Inr distinct_mappings) (Inr distinct_reordered) \<and>
   files littered_world (new_manifest_path example_manifest) = Some ''left over'' \<and>
   fst (CreateNewManifest distinct_env example_manifest example_world) = None \<and>
   fst (CreateNewManifest (distinct_env\<lparr>GetPathToProjectMappings := distinct_reordered_deps\<rparr>)
          example_manifest littered_world) = None \<and>
   files (snd (CreateNewManifest distinct_env example_manifest example_world))
     (new_manifest_path example_manifest) =
   files (snd (CreateNewManifest
                 (distinct_env\<lparr>GetPathToProjectMappings := distinct_reordered_deps\<rparr>)
                 example_manifest littered_world))
     (new_manifest_path example_manifest)"
proof -
  have 0: "distinct_mappings \<noteq> distinct_reordered"
    by (simp add: distinct_mappings_def distinct_reordered_def)
  have 1: "same_mappings (Inr distinct_mappings) (Inr distinct_reordered)"
    by (auto simp: same_mappings_def distinct_mappings_def distinct_reordered_def)
  have 2: "files littered_world (new_manifest_path example_manifest) = Some ''left over''"
    by (simp add: littered_world_def example_paths)
  have 3: "files example_world (manifest_path example_manifest) =
           files littered_world (manifest_path example_manifest)"
    by (simp add: example_live littered_live)
  have 4: "\<forall>d. same_mappings (GetPathToProjectMappings distinct_env d) (distinct_reordered_deps d)"
    by (simp add: distinct_same_mappings)
  have 5: "fst (CreateNewManifest distinct_env example_manifest example_world) = None"
    by (rule CreateNewManifest_succeeds[OF distinct_facts(1) example_live example_partition
          distinct_facts(2) distinct_facts(4) distinct_facts(3) example_match_bottom])
  from C9_determinism[OF refl 4 distinct_facts(1) distinct_facts(1) 3] 0 1 2 5
  show ?thesis by simp
qed

theorem C9_iteration_order_counterexample:
  "set example_mappings = set reordered_mappings \<and>
   distinct (map fst example_mappings) \<and>
   distinct (map fst reordered_mappings) \<and>
   files (snd (CreateNewManifest example_env example_manifest example_world))
     (new_manifest_path example_manifest) = Some example_staged \<and>
   files (snd (CreateNewManifest reordered_env example_manifest example_world))
     (new_manifest_path example_manifest) = Some reordered_staged \<and>
   example_staged \<noteq> reordered_staged"
proof -
  have 1: "set example_mappings = set reordered_mappings"
    by (auto simp: example_mappings_def reordered_mappings_def)
  have 2: "distinct (map fst example_mappings)" "distinct (map fst reordered_mappings)"
    by (simp_all add: example_mappings_def reordered_mappings_def)
  have 3: "files (snd (CreateNewManifest example_env example_manifest example_world))
     (new_manifest_path example_manifest) = Some example_staged"
    by (simp add: example_run)
  from 1 2 3 reordered_run staged_differ show ?thesis by simp
qed













end
